theory Spec2Isabelle
  imports Main "HOL-Library.Char_ord" "HOL-Library.List_Lexorder" "HOL-Library.Multiset"
begin

section \<open>cloudfile-mover: the chunked parallel transfer of \<open>core.py\<close>\<close>

text \<open>
  The development embeds \<^verbatim>\<open>src/cloudfile-mover/core.py\<close>: the destination handler
  classes \<^verbatim>\<open>S3Dest\<close>, \<^verbatim>\<open>GCSDest\<close>, \<^verbatim>\<open>AzureDest\<close>, the test double
  \<^verbatim>\<open>DummyDest\<close> of \<^verbatim>\<open>tests/test_move_file.py\<close>, and \<^verbatim>\<open>move_file\<close> with its
  nested \<^verbatim>\<open>transfer_part\<close>. URL parsing, credential lookup, the logger and the tqdm
  progress bar are not part of the embedding.
\<close>

subsection \<open>Bytes and exceptions\<close>

type_synonym bytes = "char list"

text \<open>
  Python exceptions are values. \<open>ZeroDivisionError\<close>, \<open>OverflowError\<close> and
  \<open>ValueError\<close> are raised by the interpreter and the standard library; \<open>SdkError\<close>
  stands for whatever a cloud SDK call raises, tagged with a message.
\<close>

datatype exn = ZeroDivisionError | OverflowError | ValueError | SdkError string

subsection \<open>\<^verbatim>\<open>math.ceil(file_size / chunk_size)\<close>\<close>

text \<open>
  \<^verbatim>\<open>file_size / chunk_size\<close> is Python's true division of two ints: it raises
  \<open>ZeroDivisionError\<close> for a zero divisor, \<open>OverflowError\<close> when the quotient exceeds
  the range of a double, and otherwise yields the double nearest to the exact quotient
  (ties to even, 53 significant bits, subnormals below \<open>2\<^sup>-\<^sup>1\<^sup>0\<^sup>2\<^sup>2\<close>). Sizes are
  byte counts, so only non-negative operands occur. A finite non-negative double is
  kept as mantissa and binary exponent: \<open>PyFloat m s\<close> is \<open>m * 2\<^sup>s\<close>.
\<close>

datatype pyfloat = PyFloat nat int

fun bit_length :: "nat \<Rightarrow> nat" where
  "bit_length n = (if n = 0 then 0 else Suc (bit_length (n div 2)))"

definition round_half_even :: "nat \<Rightarrow> nat \<Rightarrow> nat" where
  "round_half_even n d =
     (let q = n div d; r = n mod d
      in if 2 * r < d \<or> (2 * r = d \<and> even q) then q else q + 1)"

definition truediv :: "nat \<Rightarrow> nat \<Rightarrow> exn + pyfloat" where
  "truediv a b =
     (if b = 0 then Inl ZeroDivisionError
      else if a = 0 then Inr (PyFloat 0 0)
      else
        let d = int (bit_length a) - int (bit_length b);
            e = (if a * 2 ^ nat (- d) < b * 2 ^ nat d then d - 1 else d);
            s = max (e - 52) (- 1074);
            m = round_half_even (a * 2 ^ nat (- s)) (b * 2 ^ nat s)
        in if 0 \<le> s \<and> 2 ^ 1024 \<le> m * 2 ^ nat s then Inl OverflowError
           else Inr (PyFloat m s))"

fun math_ceil :: "pyfloat \<Rightarrow> nat" where
  "math_ceil (PyFloat m s) =
     (if 0 \<le> s then m * 2 ^ nat s else (m + 2 ^ nat (- s) - 1) div 2 ^ nat (- s))"

subsection \<open>Planning: chunk size, number of parts, pool size\<close>

text \<open>
  Lines 286 to 293 of \<^verbatim>\<open>move_file\<close>, and the first two lines of \<^verbatim>\<open>transfer_part\<close>.
  \<open>threads\<close> is a Python int chosen by the caller, so it is an \<open>int\<close> here;
  \<open>bytes_to_read\<close> is a difference of ints and may be negative.
\<close>

definition default_chunk :: nat where
  "default_chunk = 64 * 1024 * 1024"

definition chunk_size :: "nat \<Rightarrow> nat" where
  "chunk_size file_size = (if file_size < default_chunk then file_size else default_chunk)"

definition num_parts :: "nat \<Rightarrow> exn + nat" where
  "num_parts file_size =
     (case truediv file_size (chunk_size file_size) of
        Inl e \<Rightarrow> Inl e
      | Inr q \<Rightarrow> Inr (math_ceil q))"

definition pool_size :: "int \<Rightarrow> nat \<Rightarrow> int" where
  "pool_size threads n = (if int n < threads then int n else threads)"

definition part_offset :: "nat \<Rightarrow> nat \<Rightarrow> nat" where
  "part_offset file_size part_index = part_index * chunk_size file_size"

definition bytes_to_read :: "nat \<Rightarrow> nat \<Rightarrow> int" where
  "bytes_to_read file_size part_index =
     (let offset = part_offset file_size part_index
      in if offset + chunk_size file_size \<le> file_size then int (chunk_size file_size)
         else int file_size - int offset)"

subsection \<open>The source handle\<close>

text \<open>
  \<^verbatim>\<open>S3Source\<close>, \<^verbatim>\<open>GCSSource\<close>, \<^verbatim>\<open>AzureSource\<close> and the test double
  \<^verbatim>\<open>DummySource\<close> share one shape: the size cached by the constructor, the remote
  object, and whether it has been deleted. \<open>read_range\<close> is the provider's answer to a
  range request when it answers: the bytes from \<open>offset\<close>, at most \<open>length\<close> of
  them (none for a length that is not positive). Whether a call raises instead is
  decided by the environment below.
\<close>

record source =
  size_src :: nat
  content :: bytes
  deleted :: bool

definition get_size :: "source \<Rightarrow> nat" where
  "get_size src = size_src src"

definition read_range :: "source \<Rightarrow> nat \<Rightarrow> int \<Rightarrow> bytes" where
  "read_range src offset len = take (nat len) (drop offset (content src))"

subsection \<open>The environment\<close>

text \<open>
  Every SDK call may raise. The environment fixes, for one run, what each call does:
  \<open>read_exn i a\<close> and \<open>upload_exn k a\<close> are the exceptions (if any) of the read of
  part index \<open>i\<close> and of the upload of part number \<open>k\<close> when the Python variable
  \<^verbatim>\<open>attempt\<close> has the value \<open>a\<close>; \<open>etag k\<close> is the ETag header S3 returns for part
  \<open>k\<close>; \<open>complete_exn\<close>, \<open>abort_exn\<close> and \<open>delete_exn\<close> are the outcomes of the
  SDK call inside \<^verbatim>\<open>complete\<close>, inside \<^verbatim>\<open>abort\<close> and of \<^verbatim>\<open>src.delete()\<close>;
  \<open>cleanup_exn i\<close> is the outcome of deleting the temporary GCS blob of part \<open>i\<close>.
\<close>

record env =
  read_exn :: "nat \<Rightarrow> nat \<Rightarrow> exn option"
  upload_exn :: "nat \<Rightarrow> nat \<Rightarrow> exn option"
  etag :: "nat \<Rightarrow> string"
  complete_exn :: "exn option"
  cleanup_exn :: "nat \<Rightarrow> exn option"
  abort_exn :: "exn option"
  delete_exn :: "exn option"

definition delete :: "env \<Rightarrow> source \<Rightarrow> exn option \<times> source" where
  "delete env src =
     (case delete_exn env of
        Some e \<Rightarrow> (Some e, src)
      | None \<Rightarrow> (None, src\<lparr>deleted := True\<rparr>))"

subsection \<open>\<^verbatim>\<open>S3Dest\<close>\<close>

text \<open>
  A dict \<^verbatim>\<open>{'ETag': etag, 'PartNumber': part_number}\<close> is the pair
  \<open>(etag, part_number)\<close>. Each method takes the outcome of its SDK call and returns
  the exception it raises (if any) with the handle as the call leaves it.
  \<^verbatim>\<open>list.sort(key=...)\<close> is stable, as \<open>sort_key\<close> is.
\<close>

record S3Dest =
  bucket :: string
  key :: string
  upload_id :: string
  parts :: "(string \<times> nat) list"

definition strip_quotes :: "string \<Rightarrow> string" where
  "strip_quotes t =
     (if t \<noteq> [] \<and> hd t = CHR 0x22 \<and> last t = CHR 0x22 then butlast (tl t) else t)"

definition S3Dest_upload_part ::
  "exn option \<Rightarrow> string \<Rightarrow> nat \<Rightarrow> bytes \<Rightarrow> S3Dest \<Rightarrow> exn option \<times> S3Dest" where
  "S3Dest_upload_part resp raw_etag part_number data d =
     (case resp of
        Some e \<Rightarrow> (Some e, d)
      | None \<Rightarrow> (None, d\<lparr>parts := parts d @ [(strip_quotes raw_etag, part_number)]\<rparr>))"

definition S3Dest_complete :: "exn option \<Rightarrow> S3Dest \<Rightarrow> exn option \<times> S3Dest" where
  "S3Dest_complete resp d = (resp, d\<lparr>parts := sort_key snd (parts d)\<rparr>)"

definition S3Dest_abort :: "exn option \<Rightarrow> S3Dest \<Rightarrow> exn option \<times> S3Dest" where
  "S3Dest_abort resp d = (None, d)"

subsection \<open>\<^verbatim>\<open>GCSDest\<close>\<close>

text \<open>
  \<open>gcs_bucket\<close> is the remote bucket behind \<^verbatim>\<open>self.bucket\<close>: its blobs by name.
  \<^verbatim>\<open>upload_from_string\<close> writes a blob, \<^verbatim>\<open>compose\<close> concatenates the named blobs in
  the order given and fails when one is missing, \<^verbatim>\<open>delete\<close> removes a blob.
  \<open>str_nat\<close> is the decimal text of \<^verbatim>\<open>f"{i}"\<close>.
\<close>

fun str_nat :: "nat \<Rightarrow> string" where
  "str_nat n =
     (if n < 10 then [char_of (48 + n)]
      else str_nat (n div 10) @ [char_of (48 + n mod 10)])"

record GCSDest =
  gcs_bucket :: "string \<rightharpoonup> bytes"
  final_blob_name :: string
  part_prefix :: string
  part_count :: nat

definition part_name :: "GCSDest \<Rightarrow> nat \<Rightarrow> string" where
  "part_name d i = part_prefix d @ str_nat i"

definition GCSDest_upload_part ::
  "exn option \<Rightarrow> nat \<Rightarrow> bytes \<Rightarrow> GCSDest \<Rightarrow> exn option \<times> GCSDest" where
  "GCSDest_upload_part resp part_number data d =
     (case resp of
        Some e \<Rightarrow> (Some e, d)
      | None \<Rightarrow>
          (None, d\<lparr>gcs_bucket := (gcs_bucket d)(part_name d part_number \<mapsto> data),
                    part_count := part_count d + 1\<rparr>))"

fun delete_blobs ::
  "(nat \<Rightarrow> exn option) \<Rightarrow> GCSDest \<Rightarrow> nat list \<Rightarrow> (string \<rightharpoonup> bytes) \<Rightarrow> (string \<rightharpoonup> bytes)" where
  "delete_blobs fails d [] b = b"
| "delete_blobs fails d (i # rest) b =
     delete_blobs fails d rest
       (case fails i of Some e \<Rightarrow> b | None \<Rightarrow> b(part_name d i := None))"

definition GCSDest_complete ::
  "exn option \<Rightarrow> (nat \<Rightarrow> exn option) \<Rightarrow> GCSDest \<Rightarrow> exn option \<times> GCSDest" where
  "GCSDest_complete resp fails d =
     (if part_count d = 0 then
        (case resp of
           Some e \<Rightarrow> (Some e, d)
         | None \<Rightarrow> (None, d\<lparr>gcs_bucket := (gcs_bucket d)(final_blob_name d \<mapsto> [])\<rparr>))
      else
        let sources = [1 ..< part_count d + 1] in
        (case resp of
           Some e \<Rightarrow> (Some e, d)
         | None \<Rightarrow>
             if list_all (\<lambda>i. gcs_bucket d (part_name d i) \<noteq> None) sources then
               (None, d\<lparr>gcs_bucket :=
                  delete_blobs fails d sources
                    ((gcs_bucket d)(final_blob_name d \<mapsto>
                       concat (map (\<lambda>i. the (gcs_bucket d (part_name d i))) sources)))\<rparr>)
             else (Some (SdkError ''NotFound''), d)))"

definition GCSDest_abort :: "(nat \<Rightarrow> exn option) \<Rightarrow> GCSDest \<Rightarrow> exn option \<times> GCSDest" where
  "GCSDest_abort fails d =
     (None, d\<lparr>gcs_bucket := delete_blobs fails d [1 ..< part_count d + 1] (gcs_bucket d)\<rparr>)"

subsection \<open>\<^verbatim>\<open>AzureDest\<close>\<close>

text \<open>
  \<open>BlobClient\<close> is the remote blob behind \<^verbatim>\<open>self.blob_client\<close>: the object committed
  under the destination name (if any) and the blocks staged for it, by block id.
  \<^verbatim>\<open>stage_block\<close> stores a block under its id, \<^verbatim>\<open>commit_block_list\<close> makes the object
  the concatenation of the listed blocks in list order, \<^verbatim>\<open>upload_blob(b"",
  overwrite=True)\<close> makes it empty, \<^verbatim>\<open>delete_blob\<close> removes it.
  \<open>format_06d\<close> is \<^verbatim>\<open>f"{part_number:06d}"\<close>, \<open>b64encode\<close> the standard base64
  encoding of \<^verbatim>\<open>base64.b64encode\<close>, and \<^verbatim>\<open>self.block_ids.sort()\<close> sorts strings by
  code point, which is the order of \<open>char list\<close> here.
\<close>

definition format_06d :: "nat \<Rightarrow> string" where
  "format_06d n = (let s = str_nat n in replicate (6 - length s) (CHR ''0'') @ s)"

definition b64_alphabet :: string where
  "b64_alphabet = ''ABCDEFGHIJKLMNOPQRSTUVWXYZabcdefghijklmnopqrstuvwxyz0123456789+/''"

definition b64_char :: "nat \<Rightarrow> char" where
  "b64_char n = b64_alphabet ! n"

fun b64encode :: "bytes \<Rightarrow> string" where
  "b64encode (a # b # c # rest) =
     (let n = of_char a * 65536 + of_char b * 256 + (of_char c :: nat)
      in [b64_char (n div 262144), b64_char (n div 4096 mod 64),
          b64_char (n div 64 mod 64), b64_char (n mod 64)] @ b64encode rest)"
| "b64encode [a, b] =
     (let n = of_char a * 65536 + (of_char b :: nat) * 256
      in [b64_char (n div 262144), b64_char (n div 4096 mod 64),
          b64_char (n div 64 mod 64), CHR ''=''])"
| "b64encode [a] =
     (let n = (of_char a :: nat) * 65536
      in [b64_char (n div 262144), b64_char (n div 4096 mod 64), CHR ''='', CHR ''=''])"
| "b64encode [] = []"

definition block_id_of :: "nat \<Rightarrow> string" where
  "block_id_of part_number = b64encode (format_06d part_number)"

record BlobClient =
  committed :: "bytes option"
  staged :: "string \<rightharpoonup> bytes"

record AzureDest =
  blob_client :: BlobClient
  block_ids :: "string list"

definition AzureDest_upload_part ::
  "exn option \<Rightarrow> nat \<Rightarrow> bytes \<Rightarrow> AzureDest \<Rightarrow> exn option \<times> AzureDest" where
  "AzureDest_upload_part resp part_number data d =
     (let block_id = block_id_of part_number in
      case resp of
        Some e \<Rightarrow> (Some e, d)
      | None \<Rightarrow>
          (None, d\<lparr>blob_client :=
                      (blob_client d)\<lparr>staged := (staged (blob_client d))(block_id \<mapsto> data)\<rparr>,
                    block_ids := block_ids d @ [block_id]\<rparr>))"

definition AzureDest_complete :: "exn option \<Rightarrow> AzureDest \<Rightarrow> exn option \<times> AzureDest" where
  "AzureDest_complete resp d =
     (if block_ids d = [] then
        (case resp of
           Some e \<Rightarrow> (Some e, d)
         | None \<Rightarrow> (None, d\<lparr>blob_client := (blob_client d)\<lparr>committed := Some []\<rparr>\<rparr>))
      else
        let d' = d\<lparr>block_ids := sort (block_ids d)\<rparr> in
        (case resp of
           Some e \<Rightarrow> (Some e, d')
         | None \<Rightarrow>
             if list_all (\<lambda>i. staged (blob_client d') i \<noteq> None) (block_ids d') then
               (None, d'\<lparr>blob_client := (blob_client d')\<lparr>committed :=
                  Some (concat (map (\<lambda>i. the (staged (blob_client d') i)) (block_ids d')))\<rparr>\<rparr>)
             else (Some (SdkError ''InvalidBlockList''), d')))"

definition AzureDest_abort :: "exn option \<Rightarrow> AzureDest \<Rightarrow> exn option \<times> AzureDest" where
  "AzureDest_abort resp d =
     (case resp of
        Some e \<Rightarrow> (None, d)
      | None \<Rightarrow> (None, d\<lparr>blob_client := (blob_client d)\<lparr>committed := None\<rparr>\<rparr>))"

subsection \<open>\<^verbatim>\<open>DummyDest\<close>, the destination of \<^verbatim>\<open>tests/test_move_file.py\<close>\<close>

record DummyDest =
  dummy_parts :: "(nat \<times> bytes) list"
  completed :: bool
  combined_data :: "bytes option"

definition DummyDest_upload_part :: "nat \<Rightarrow> bytes \<Rightarrow> DummyDest \<Rightarrow> exn option \<times> DummyDest" where
  "DummyDest_upload_part part_number data d =
     (None, d\<lparr>dummy_parts := dummy_parts d @ [(part_number, data)]\<rparr>)"

definition DummyDest_complete :: "DummyDest \<Rightarrow> exn option \<times> DummyDest" where
  "DummyDest_complete d =
     (let sorted_parts = sort_key fst (dummy_parts d) in
      (None, d\<lparr>dummy_parts := sorted_parts, completed := True,
                combined_data := Some (concat (map snd sorted_parts))\<rparr>))"

definition DummyDest_abort :: "DummyDest \<Rightarrow> exn option \<times> DummyDest" where
  "DummyDest_abort d = (None, d\<lparr>dummy_parts := []\<rparr>)"

subsection \<open>The destination handle seen by \<^verbatim>\<open>move_file\<close>\<close>

text \<open>
  \<^verbatim>\<open>move_file\<close> calls \<^verbatim>\<open>dest.upload_part\<close>, \<^verbatim>\<open>dest.complete\<close> and \<^verbatim>\<open>dest.abort\<close> on
  whichever handle it built; the dispatch hands each method the outcome the environment
  fixes for its SDK call.
\<close>

datatype dest = S3 S3Dest | GCS GCSDest | Azure AzureDest | Dummy DummyDest

fun upload_part :: "env \<Rightarrow> nat \<Rightarrow> nat \<Rightarrow> bytes \<Rightarrow> dest \<Rightarrow> exn option \<times> dest" where
  "upload_part env attempt k data (S3 d) =
     map_prod id S3 (S3Dest_upload_part (upload_exn env k attempt) (etag env k) k data d)"
| "upload_part env attempt k data (GCS d) =
     map_prod id GCS (GCSDest_upload_part (upload_exn env k attempt) k data d)"
| "upload_part env attempt k data (Azure d) =
     map_prod id Azure (AzureDest_upload_part (upload_exn env k attempt) k data d)"
| "upload_part env attempt k data (Dummy d) =
     map_prod id Dummy (DummyDest_upload_part k data d)"

fun complete :: "env \<Rightarrow> dest \<Rightarrow> exn option \<times> dest" where
  "complete env (S3 d) = map_prod id S3 (S3Dest_complete (complete_exn env) d)"
| "complete env (GCS d) = map_prod id GCS (GCSDest_complete (complete_exn env) (cleanup_exn env) d)"
| "complete env (Azure d) = map_prod id Azure (AzureDest_complete (complete_exn env) d)"
| "complete env (Dummy d) = map_prod id Dummy (DummyDest_complete d)"

fun abort :: "env \<Rightarrow> dest \<Rightarrow> exn option \<times> dest" where
  "abort env (S3 d) = map_prod id S3 (S3Dest_abort (abort_exn env) d)"
| "abort env (GCS d) = map_prod id GCS (GCSDest_abort (cleanup_exn env) d)"
| "abort env (Azure d) = map_prod id Azure (AzureDest_abort (abort_exn env) d)"
| "abort env (Dummy d) = map_prod id Dummy (DummyDest_abort d)"

subsection \<open>\<^verbatim>\<open>transfer_part\<close>\<close>

text \<open>
  A run is observed through the calls \<^verbatim>\<open>move_file\<close> and \<^verbatim>\<open>transfer_part\<close> make on
  the two handles and on \<^verbatim>\<open>time.sleep\<close>, each with the exception it raised (if any).
\<close>

datatype call = ReadRange nat int | UploadPart nat bytes | Sleep nat | Complete | Delete | Abort

type_synonym log = "(call \<times> exn option) list"

text \<open>The bytes \<^verbatim>\<open>src.read_range(offset, bytes_to_read)\<close> returns for a part.\<close>

definition part_data :: "source \<Rightarrow> nat \<Rightarrow> bytes" where
  "part_data src i =
     read_range src (part_offset (get_size src) i) (bytes_to_read (get_size src) i)"

text \<open>One pass through the \<^verbatim>\<open>try\<close> block of the loop: read, then upload.\<close>

definition try_part :: "env \<Rightarrow> source \<Rightarrow> nat \<Rightarrow> nat \<Rightarrow> dest \<Rightarrow> exn option \<times> log \<times> dest" where
  "try_part env src part_index attempt d =
     (let offset = part_offset (get_size src) part_index;
          len = bytes_to_read (get_size src) part_index
      in case read_exn env part_index attempt of
           Some e \<Rightarrow> (Some e, [(ReadRange offset len, Some e)], d)
         | None \<Rightarrow>
             let data = read_range src offset len;
                 (r, d') = upload_part env attempt (part_index + 1) data d
             in (r, [(ReadRange offset len, None), (UploadPart (part_index + 1) data, r)], d'))"

text \<open>
  The \<^verbatim>\<open>while True\<close> loop from a given value of \<^verbatim>\<open>attempt\<close>: on an exception
  \<^verbatim>\<open>attempt\<close> is incremented, the exception is re-raised once it reaches 3, and
  otherwise the loop sleeps \<^verbatim>\<open>1 * attempt\<close> seconds and tries again.
\<close>

function transfer_part_loop ::
  "env \<Rightarrow> source \<Rightarrow> nat \<Rightarrow> nat \<Rightarrow> dest \<Rightarrow> exn option \<times> log \<times> dest" where
  "transfer_part_loop env src part_index attempt d =
     (case try_part env src part_index attempt d of
        (None, lg, d') \<Rightarrow> (None, lg, d')
      | (Some e, lg, d') \<Rightarrow>
          if attempt + 1 \<ge> 3 then (Some e, lg, d')
          else
            (case transfer_part_loop env src part_index (attempt + 1) d' of
               (r, lg', d'') \<Rightarrow> (r, lg @ (Sleep (1 * (attempt + 1)), None) # lg', d'')))"
  by pat_completeness auto
termination
  by (relation "measure (\<lambda>(env, src, part_index, attempt, d). 3 - attempt)") auto

definition transfer_part :: "env \<Rightarrow> source \<Rightarrow> nat \<Rightarrow> dest \<Rightarrow> exn option \<times> log \<times> dest" where
  "transfer_part env src part_index d = transfer_part_loop env src part_index 0 d"

subsection \<open>\<^verbatim>\<open>move_file\<close>\<close>

text \<open>
  The pool runs \<^verbatim>\<open>transfer_part(i)\<close> for every \<open>i\<close> of \<^verbatim>\<open>range(num_parts)\<close>; the
  parts share nothing but the destination handle. \<open>transfer_all\<close> runs them in the
  order in which they finish, which the pool decides: \<^verbatim>\<open>as_completed\<close> hands the
  futures over in that order, \<^verbatim>\<open>future.result()\<close> re-raises the first exception met,
  and leaving the \<^verbatim>\<open>with\<close> block waits for every part that was submitted, so all parts
  run whether or not one fails.
\<close>

fun transfer_all :: "env \<Rightarrow> source \<Rightarrow> nat list \<Rightarrow> dest \<Rightarrow> exn option \<times> log \<times> dest" where
  "transfer_all env src [] d = (None, [], d)"
| "transfer_all env src (i # rest) d =
     (case transfer_part env src i d of
        (r, lg, d') \<Rightarrow>
          (case transfer_all env src rest d' of
             (r', lg', d'') \<Rightarrow> ((case r of Some e \<Rightarrow> Some e | None \<Rightarrow> r'), lg @ lg', d'')))"

text \<open>
  The body of the \<^verbatim>\<open>try\<close> block. \<open>sched\<close> turns the list of submitted part indices into
  their order of completion. \<^verbatim>\<open>ThreadPoolExecutor(max_workers=threads)\<close> raises
  \<open>ValueError\<close> when \<open>threads\<close> is not positive.
\<close>

definition move_file_body ::
  "env \<Rightarrow> (nat list \<Rightarrow> nat list) \<Rightarrow> int \<Rightarrow> source \<Rightarrow> dest \<Rightarrow> (exn + bool) \<times> log \<times> source \<times> dest" where
  "move_file_body env sched threads src d =
     (let file_size = get_size src in
      case num_parts file_size of
        Inl e \<Rightarrow> (Inl e, [], src, d)
      | Inr n \<Rightarrow>
          if pool_size threads n \<le> 0 then (Inl ValueError, [], src, d)
          else
            (case transfer_all env src (sched [0 ..< n]) d of
               (Some e, lg, d1) \<Rightarrow> (Inl e, lg, src, d1)
             | (None, lg, d1) \<Rightarrow>
                 (case complete env d1 of
                    (Some e, d2) \<Rightarrow> (Inl e, lg @ [(Complete, Some e)], src, d2)
                  | (None, d2) \<Rightarrow>
                      (case delete env src of
                         (Some e, src') \<Rightarrow>
                           (Inl e, lg @ [(Complete, None), (Delete, Some e)], src', d2)
                       | (None, src') \<Rightarrow>
                           (Inr True, lg @ [(Complete, None), (Delete, None)], src', d2)))))"

text \<open>
  \<^verbatim>\<open>move_file\<close> itself: the \<^verbatim>\<open>except\<close> clause calls \<^verbatim>\<open>dest.abort()\<close>, swallows
  whatever that raises, and re-raises the exception it caught.
\<close>

definition move_file ::
  "env \<Rightarrow> (nat list \<Rightarrow> nat list) \<Rightarrow> int \<Rightarrow> source \<Rightarrow> dest \<Rightarrow> (exn + bool) \<times> log \<times> source \<times> dest" where
  "move_file env sched threads src d =
     (case move_file_body env sched threads src d of
        (Inr ok, lg, src', d') \<Rightarrow> (Inr ok, lg, src', d')
      | (Inl e, lg, src', d') \<Rightarrow>
          (case abort env d' of
             (r, d'') \<Rightarrow> (Inl e, lg @ [(Abort, r)], src', d'')))"

text \<open>What a log says: how often a call was made, and which uploads went through.\<close>

definition count_call :: "call \<Rightarrow> log \<Rightarrow> nat" where
  "count_call c lg = length (filter (\<lambda>x. fst x = c) lg)"

fun is_read :: "call \<times> exn option \<Rightarrow> bool" where
  "is_read (ReadRange offset len, r) = True"
| "is_read (c, r) = False"

definition attempts :: "log \<Rightarrow> nat" where
  "attempts lg = length (filter is_read lg)"

fun sleeps :: "log \<Rightarrow> nat list" where
  "sleeps [] = []"
| "sleeps ((Sleep n, r) # lg) = n # sleeps lg"
| "sleeps (x # lg) = sleeps lg"

fun delivered :: "log \<Rightarrow> (nat \<times> bytes) list" where
  "delivered [] = []"
| "delivered ((UploadPart k data, None) # lg) = (k, data) # delivered lg"
| "delivered (x # lg) = delivered lg"

subsection \<open>Example inputs\<close>

text \<open>
  Inputs for concrete runs: an environment in which no call fails, one in which the
  first read of the second part times out, a source of three bytes (one part), a source
  of 128 MiB and one byte (three parts), and fresh destination handles.
\<close>

definition env_ok :: env where
  "env_ok = \<lparr>read_exn = (\<lambda>i a. None), upload_exn = (\<lambda>k a. None), etag = (\<lambda>k. ''etag''),
              complete_exn = None, cleanup_exn = (\<lambda>i. None), abort_exn = None,
              delete_exn = None\<rparr>"

definition src_abc :: source where
  "src_abc = \<lparr>size_src = 3, content = ''abc'', deleted = False\<rparr>"

definition env_timeout_once :: env where
  "env_timeout_once =
     env_ok\<lparr>read_exn :=
       (\<lambda>i a. if i = 1 \<and> a = 0 then Some (SdkError ''timeout'') else None)\<rparr>"

definition src_three_parts :: source where
  "src_three_parts =
     \<lparr>size_src = 2 ^ 27 + 1,
      content = replicate (2 ^ 26) (CHR ''a'') @ replicate (2 ^ 26) (CHR ''b'') @ ''c'',
      deleted = False\<rparr>"


definition azure_fresh :: "bytes option \<Rightarrow> AzureDest" where
  "azure_fresh existing =
     \<lparr>blob_client = \<lparr>committed = existing, staged = Map.empty\<rparr>, block_ids = []\<rparr>"

definition dummy_fresh :: DummyDest where
  "dummy_fresh = \<lparr>dummy_parts = [], completed = False, combined_data = None\<rparr>"

declare bit_length.simps [simp del]
declare str_nat.simps [simp del]
declare transfer_part_loop.simps [simp del]

section \<open>Properties\<close>

subsection \<open>The planner at size zero\<close>

text \<open>
  C7 (the planner yields zero parts for a zero-length object): in the code the size 0
  makes \<open>chunk_size\<close> 0, and the division \<^verbatim>\<open>file_size / chunk_size\<close> raises
  \<open>ZeroDivisionError\<close>; no part count is produced.
\<close>

theorem num_parts_zero_size_raises:
  "chunk_size 0 = 0 \<and> truediv 0 (chunk_size 0) = Inl ZeroDivisionError
   \<and> num_parts 0 = Inl ZeroDivisionError"
  by (simp add: num_parts_def chunk_size_def default_chunk_def truediv_def)

subsection \<open>The float quotient and the number of parts\<close>

text \<open>
  For sizes up to \<open>2\<^sup>5\<^sup>3\<close> bytes the double quotient is exact and \<open>num_parts\<close> is the
  ceiling of \<open>file_size / chunk_size\<close>; whenever a part count is produced at all, it is
  at least one.
\<close>

lemma default_chunk_pow: "default_chunk = 2 ^ 26"
  by (simp add: default_chunk_def)

lemma bit_length_bounds:
  "0 < n \<Longrightarrow> 2 ^ (bit_length n - 1) \<le> n \<and> n < 2 ^ bit_length n"
proof (induction n rule: bit_length.induct)
  case (1 n)
  show ?case
  proof (cases "n div 2 = 0")
    case True
    with "1.prems" have "n = 1" by presburger
    then show ?thesis by (simp add: bit_length.simps)
  next
    case False
    with "1.IH" "1.prems" have ih: "2 ^ (bit_length (n div 2) - 1) \<le> n div 2"
      "n div 2 < 2 ^ bit_length (n div 2)" by auto
    from False have pos: "0 < bit_length (n div 2)" by (subst bit_length.simps) simp
    have bl: "bit_length n = Suc (bit_length (n div 2))"
      using "1.prems" by (subst bit_length.simps) simp
    have "2 * 2 ^ (bit_length (n div 2) - 1) \<le> n" using ih(1) by presburger
    moreover have "2 * 2 ^ (bit_length (n div 2) - 1) = (2::nat) ^ bit_length (n div 2)"
      using pos by (cases "bit_length (n div 2)") simp_all
    moreover have "n < 2 * 2 ^ bit_length (n div 2)" using ih(2) by presburger
    ultimately show ?thesis by (simp add: bl)
  qed
qed

lemma ceil_scale:
  fixes x y c :: nat
  assumes "0 < c"
  shows "(x * c + y * c - 1) div (c * y) = (x + y - 1) div y"
proof (cases "x + y")
  case 0
  then show ?thesis by simp
next
  case (Suc z)
  have "x * c + y * c = (x + y) * c" by (simp add: algebra_simps)
  also have "\<dots> = z * c + c" by (simp add: Suc)
  finally have e: "x * c + y * c - 1 = (c - 1) + z * c" using assms by simp
  have "((c - 1) + z * c) div c = z + (c - 1) div c"
    using assms by (subst div_mult_self1) simp_all
  moreover have "(c - 1) div c = 0" using assms by simp
  ultimately have "(x * c + y * c - 1) div c = z"
    by (simp only: e add_0_right)
  then show ?thesis by (simp add: div_mult2_eq Suc)
qed

lemma truediv_self:
  assumes "0 < a"
  shows "truediv a a = Inr (PyFloat (2 ^ 52) (- 52))"
  using assms by (simp add: truediv_def Let_def round_half_even_def)


lemma bit_length_default_chunk: "bit_length default_chunk = 27"
  by (simp add: default_chunk_def bit_length.simps)

lemma truediv_steps:
  assumes "b \<noteq> 0" and "a \<noteq> 0"
    and "int (bit_length a) - int (bit_length b) = d"
    and "(if a * 2 ^ nat (- d) < b * 2 ^ nat d then d - 1 else d) = e"
    and "max (e - 52) (- 1074) = s"
    and "round_half_even (a * 2 ^ nat (- s)) (b * 2 ^ nat s) = m"
    and "\<not> (0 \<le> s \<and> 2 ^ 1024 \<le> m * 2 ^ nat s)"
  shows "truediv a b = Inr (PyFloat m s)"
  unfolding truediv_def Let_def by (simp only: assms if_False)

lemma truediv_chunk_exact:
  assumes lo: "default_chunk \<le> a" and hi: "a < 2 ^ 53"
  shows "truediv a default_chunk =
           Inr (PyFloat (a * 2 ^ (53 - bit_length a)) (- int (79 - bit_length a)))"
proof -
  let ?k = "bit_length a"
  have cpos: "0 < default_chunk" by (simp add: default_chunk_def)
  have apos: "0 < a" using lo cpos by simp
  from bit_length_bounds [OF apos]
  have b1: "2 ^ (?k - 1) \<le> a" and b2: "a < 2 ^ ?k" by simp_all
  have "(2::nat) ^ 26 < 2 ^ ?k" using lo b2 unfolding default_chunk_pow by (rule le_less_trans)
  then have "26 < ?k" by (rule power_less_imp_less_exp [rotated]) simp
  then have klo: "27 \<le> ?k" by simp
  have "(2::nat) ^ (?k - 1) < 2 ^ 53" using b1 hi by (rule le_less_trans)
  then have "?k - 1 < 53" by (rule power_less_imp_less_exp [rotated]) simp
  then have khi: "?k \<le> 53" by simp
  have d: "int (bit_length a) - int (bit_length default_chunk) = int (?k - 27)"
    using klo by (simp add: bit_length_default_chunk)
  have "default_chunk * 2 ^ (?k - 27) = 2 ^ (26 + (?k - 27))"
    by (simp only: default_chunk_pow power_add)
  also have "26 + (?k - 27) = ?k - 1" using klo by simp
  finally have nolt: "\<not> a < default_chunk * 2 ^ (?k - 27)" using b1 by simp
  have e: "(if a * 2 ^ nat (- int (?k - 27)) < default_chunk * 2 ^ nat (int (?k - 27))
            then int (?k - 27) - 1 else int (?k - 27)) = int (?k - 27)"
    using nolt by simp
  have s: "max (int (?k - 27) - 52) (- 1074) = - int (79 - ?k)"
    using klo khi by simp
  have "(2::nat) ^ (79 - ?k) = 2 ^ ((53 - ?k) + 26)"
    using khi by simp
  also have "\<dots> = 2 ^ (53 - ?k) * default_chunk"
    by (simp only: default_chunk_pow power_add)
  finally have num: "a * 2 ^ (79 - ?k) = (a * 2 ^ (53 - ?k)) * default_chunk" by simp
  have "round_half_even (a * 2 ^ (79 - ?k)) default_chunk = a * 2 ^ (53 - ?k)"
    unfolding num round_half_even_def using cpos by simp
  then have m: "round_half_even (a * 2 ^ nat (- (- int (79 - ?k))))
                  (default_chunk * 2 ^ nat (- int (79 - ?k))) = a * 2 ^ (53 - ?k)"
    by simp
  have neg: "\<not> (0 \<le> - int (79 - ?k) \<and>
      2 ^ 1024 \<le> a * 2 ^ (53 - ?k) * 2 ^ nat (- int (79 - ?k)))" using khi by simp
  have nz: "default_chunk \<noteq> 0" "a \<noteq> 0" using cpos apos by simp_all
  show ?thesis
    by (rule truediv_steps [OF nz(1) nz(2) d e s m neg])
qed


lemma math_ceil_exact:
  "math_ceil (PyFloat (a * 2 ^ j) (- int (26 + j))) = (a + default_chunk - 1) div default_chunk"
proof -
  have p: "(2::nat) ^ (26 + j) = 2 ^ j * default_chunk"
    by (simp only: default_chunk_pow power_add mult.commute)
  have n: "nat (- (- int (26 + j))) = 26 + j" by (simp only: minus_minus nat_int)
  have neg: "\<not> 0 \<le> - int (26 + j)" by simp
  have "math_ceil (PyFloat (a * 2 ^ j) (- int (26 + j)))
          = (a * 2 ^ j + 2 ^ (26 + j) - 1) div 2 ^ (26 + j)"
    by (simp only: math_ceil.simps neg if_False n)
  also have "\<dots> = (a * 2 ^ j + default_chunk * 2 ^ j - 1) div (2 ^ j * default_chunk)"
    by (simp only: p mult.commute)
  also have "\<dots> = (a + default_chunk - 1) div default_chunk"
    by (rule ceil_scale) simp
  finally show ?thesis .
qed

lemma num_parts_small:
  assumes "0 < file_size" and "file_size < default_chunk"
  shows "num_parts file_size = Inr 1"
  using assms by (simp add: num_parts_def chunk_size_def truediv_self)

lemma num_parts_chunked:
  assumes lo: "default_chunk \<le> file_size" and hi: "file_size < 2 ^ 53"
  shows "num_parts file_size = Inr ((file_size + default_chunk - 1) div default_chunk)"
proof -
  let ?k = "bit_length file_size"
  have cpos: "0 < default_chunk" by (simp add: default_chunk_def)
  have apos: "0 < file_size" using lo cpos by simp
  from bit_length_bounds [OF apos]
  have b1: "2 ^ (?k - 1) \<le> file_size" by simp
  have "(2::nat) ^ (?k - 1) < 2 ^ 53" using b1 hi by (rule le_less_trans)
  then have "?k - 1 < 53" by (rule power_less_imp_less_exp [rotated]) simp
  then have eq: "- int (79 - ?k) = - int (26 + (53 - ?k))" by simp
  have "truediv file_size default_chunk =
      Inr (PyFloat (file_size * 2 ^ (53 - ?k)) (- int (26 + (53 - ?k))))"
    using truediv_chunk_exact [OF lo hi] by (simp only: eq)
  moreover have "\<not> file_size < default_chunk" using lo by simp
  ultimately show ?thesis
    by (simp only: num_parts_def chunk_size_def math_ceil_exact sum.case if_False)
qed


lemma num_parts_150: "num_parts (150 * 1024 * 1024) = Inr 3"
  by (simp add: num_parts_def chunk_size_def default_chunk_def truediv_def Let_def
      round_half_even_def bit_length.simps)

lemma num_parts_top: "num_parts (2 ^ 53) = Inr (2 ^ 27)"
  by (simp add: num_parts_def chunk_size_def default_chunk_def truediv_def Let_def
      round_half_even_def bit_length.simps)

lemma num_parts_beyond: "num_parts (2 ^ 53 + 1) = Inr (2 ^ 27)"
  by (simp add: num_parts_def chunk_size_def default_chunk_def truediv_def Let_def
      round_half_even_def bit_length.simps)

lemma round_half_even_pos:
  assumes "0 < d" and "d \<le> n"
  shows "1 \<le> round_half_even n d"
proof -
  have "0 < n div d" using assms by (simp add: div_greater_zero_iff)
  then show ?thesis by (simp add: round_half_even_def Let_def)
qed

lemma math_ceil_pos:
  assumes "1 \<le> m"
  shows "1 \<le> math_ceil (PyFloat m s)"
proof (cases "0 \<le> s")
  case True
  then show ?thesis using assms by simp
next
  case False
  have "0 < (m + 2 ^ nat (- s) - 1) div 2 ^ nat (- s)"
    using assms by (simp add: div_greater_zero_iff)
  then show ?thesis using False by simp
qed

lemma truediv_InrD:
  assumes q: "truediv a b = Inr (PyFloat m s)" and a: "a \<noteq> 0" and b: "b \<noteq> 0"
  shows "\<exists>e. e \<le> int (bit_length a) - int (bit_length b) \<and> s = max (e - 52) (- 1074)
           \<and> m = round_half_even (a * 2 ^ nat (- s)) (b * 2 ^ nat s)"
proof -
  let ?d = "int (bit_length a) - int (bit_length b)"
  let ?e = "if a * 2 ^ nat (- ?d) < b * 2 ^ nat ?d then ?d - 1 else ?d"
  let ?s = "max (?e - 52) (- 1074)"
  let ?m = "round_half_even (a * 2 ^ nat (- ?s)) (b * 2 ^ nat ?s)"
  let ?over = "0 \<le> ?s \<and> 2 ^ 1024 \<le> ?m * 2 ^ nat ?s"
  have eq: "truediv a b = (if ?over then Inl OverflowError else Inr (PyFloat ?m ?s))"
    unfolding truediv_def Let_def by (simp only: a b if_False)
  have no: "\<not> ?over"
  proof
    assume o: ?over
    have "truediv a b = Inl OverflowError" by (simp only: eq if_P [OF o])
    with q show False by simp
  qed
  have r: "truediv a b = Inr (PyFloat ?m ?s)" by (simp only: eq if_not_P [OF no])
  have "Inr (PyFloat m s) = (Inr (PyFloat ?m ?s) :: exn + pyfloat)"
    by (rule trans [OF q [symmetric] r])
  then have ms: "m = ?m \<and> s = ?s" by (simp only: sum.inject pyfloat.inject)
  have le: "?e \<le> ?d" by simp
  show ?thesis
  proof (intro exI conjI)
    show "?e \<le> ?d" by (rule le)
    show "s = max (?e - 52) (- 1074)" using ms by (rule conjunct2)
    show "m = round_half_even (a * 2 ^ nat (- s)) (b * 2 ^ nat s)"
      using ms by (simp only:)
  qed
qed

lemma truediv_chunk_mantissa:
  assumes lo: "default_chunk \<le> a" and q: "truediv a default_chunk = Inr (PyFloat m s)"
  shows "1 \<le> m"
proof -
  let ?k = "bit_length a"
  have cpos: "0 < default_chunk" by (simp add: default_chunk_def)
  have apos: "0 < a" using lo cpos by simp
  from truediv_InrD [OF q] apos cpos obtain e
    where e: "e \<le> int ?k - 27" and s: "s = max (e - 52) (- 1074)"
      and m: "m = round_half_even (a * 2 ^ nat (- s)) (default_chunk * 2 ^ nat s)"
    by (auto simp: bit_length_default_chunk)
  from bit_length_bounds [OF apos] have b1: "2 ^ (?k - 1) \<le> a" by simp
  have "default_chunk * 2 ^ nat s \<le> a * 2 ^ nat (- s)"
  proof (cases "s \<le> 0")
    case True
    then have "default_chunk * 2 ^ nat s = default_chunk" by simp
    also have "\<dots> \<le> a" by (rule lo)
    also have "\<dots> \<le> a * 2 ^ nat (- s)" by simp
    finally show ?thesis .
  next
    case False
    then have "s = e - 52" by (simp add: s max_def split: if_splits)
    with e have "s \<le> int ?k - 79" by simp
    with False have kb: "79 \<le> ?k" and sb: "nat s \<le> ?k - 79" by simp_all
    have "default_chunk * 2 ^ nat s \<le> default_chunk * 2 ^ (?k - 79)"
      using sb by (simp add: power_increasing)
    also have "\<dots> = 2 ^ (26 + (?k - 79))" by (simp only: default_chunk_pow power_add)
    also have "\<dots> \<le> 2 ^ (?k - 1)" using kb by (intro power_increasing) simp_all
    also have "\<dots> \<le> a" by (rule b1)
    finally show ?thesis using False by simp
  qed
  moreover have "0 < default_chunk * 2 ^ nat s" using cpos by simp
  ultimately show ?thesis unfolding m by (rule round_half_even_pos [rotated])
qed

lemma num_parts_pos:
  assumes "num_parts file_size = Inr n"
  shows "1 \<le> n"
proof -
  consider "file_size = 0" | "0 < file_size" "file_size < default_chunk"
    | "default_chunk \<le> file_size" by linarith
  then show ?thesis
  proof cases
    case 1
    with assms show ?thesis
      by (simp add: num_parts_def chunk_size_def default_chunk_def truediv_def)
  next
    case 2
    with assms show ?thesis by (simp add: num_parts_small)
  next
    case 3
    then have c: "chunk_size file_size = default_chunk" by (simp add: chunk_size_def)
    from assms obtain q where q: "truediv file_size default_chunk = Inr q" and n: "n = math_ceil q"
      by (auto simp: num_parts_def c split: sum.splits)
    obtain m s where ms: "q = PyFloat m s" by (cases q)
    from truediv_chunk_mantissa [OF 3 q [unfolded ms]] show ?thesis
      unfolding n ms by (rule math_ceil_pos)
  qed
qed

lemma num_parts_exact:
  assumes "0 < file_size" and "file_size \<le> 2 ^ 53"
  shows "num_parts file_size =
           Inr ((file_size + chunk_size file_size - 1) div chunk_size file_size)"
proof -
  consider "file_size < default_chunk"
    | "default_chunk \<le> file_size" "file_size < 2 ^ 53" | "file_size = 2 ^ 53"
    using assms(2) by linarith
  then show ?thesis
  proof cases
    case 1
    have "file_size + file_size - 1 = file_size + (file_size - 1)" using assms(1) by simp
    then have "(file_size + file_size - 1) div file_size = 1"
      using assms(1) by (simp only: div_add_self1) simp
    then show ?thesis using 1 assms(1) by (simp add: num_parts_small chunk_size_def)
  next
    case 2
    then show ?thesis by (simp add: num_parts_chunked chunk_size_def)
  next
    case 3
    then show ?thesis using num_parts_top by (simp add: chunk_size_def default_chunk_def)
  qed
qed

subsection \<open>Pool size\<close>

text \<open>
  C9 (effective concurrency): for every requested worker count \<open>w\<close> and every part count
  \<open>n\<close> the planner produces, the pool size handed to \<^verbatim>\<open>ThreadPoolExecutor\<close> is
  \<open>min w (max n 1)\<close>; it is at least one for a positive request; 10 requested workers
  and 2 parts give 2, 4 requested workers and 3 parts give 3.
\<close>

theorem pool_size_effective_concurrency:
  assumes "num_parts file_size = Inr n"
  shows "pool_size w n = min w (max (int n) 1) \<and> (1 \<le> w \<longrightarrow> 1 \<le> pool_size w n)
         \<and> pool_size 10 2 = 2 \<and> pool_size 4 3 = 3"
proof -
  from num_parts_pos [OF assms] have "1 \<le> n" .
  then show ?thesis by (auto simp: pool_size_def)
qed

theorem pool_size_effective_concurrency_witness:
  "num_parts (150 * 1024 * 1024) = Inr 3 \<and> pool_size 4 3 = min 4 (max (int 3) 1)
   \<and> (1::int) \<le> 4 \<and> 1 \<le> pool_size 4 3 \<and> pool_size 10 2 = 2 \<and> pool_size 4 3 = 3"
  using pool_size_effective_concurrency [OF num_parts_150, of 4] num_parts_150
  by simp

subsection \<open>The destination handles\<close>

lemma format_06d_1_to_4:
  "format_06d 1 = ''000001''" "format_06d 2 = ''000002''"
  "format_06d 3 = ''000003''" "format_06d 4 = ''000004''"
  by code_simp+

lemma format_06d_Suc_0: "format_06d (Suc 0) = ''000001''"
  using format_06d_1_to_4(1) by simp

lemma block_id_of_1_to_4:
  "block_id_of 1 = ''MDAwMDAx''" "block_id_of 2 = ''MDAwMDAy''"
  "block_id_of 3 = ''MDAwMDAz''" "block_id_of 4 = ''MDAwMDA0''"
  by (simp_all add: block_id_of_def format_06d_1_to_4 format_06d_Suc_0 b64_char_def b64_alphabet_def)

lemma block_id_of_Suc_0: "block_id_of (Suc 0) = ''MDAwMDAx''"
  using block_id_of_1_to_4(1) by simp

lemma sort_block_ids_1_to_4:
  "sort [''MDAwMDAx'', ''MDAwMDAy'', ''MDAwMDAz'', ''MDAwMDA0'']
     = [''MDAwMDA0'', ''MDAwMDAx'', ''MDAwMDAy'', ''MDAwMDAz'']"
  by simp

text \<open>
  C1 (finalize assembles the parts in ascending part-number order; \<^verbatim>\<open>AzureDest.complete\<close>
  commits blocks 1..n in numeric order): with four parts uploaded in the order 1, 2, 3, 4,
  \<^verbatim>\<open>AzureDest.complete\<close> sorts the base64 block ids as strings, which puts the id of
  part 4 first, and commits the blocks in the order 4, 1, 2, 3.
\<close>

theorem azure_complete_commits_part_4_first:
  "(let d0 = \<lparr>blob_client = \<lparr>committed = None, staged = Map.empty\<rparr>, block_ids = []\<rparr>;
        d1 = snd (AzureDest_upload_part None 1 ''a'' d0);
        d2 = snd (AzureDest_upload_part None 2 ''b'' d1);
        d3 = snd (AzureDest_upload_part None 3 ''c'' d2);
        d4 = snd (AzureDest_upload_part None 4 ''d'' d3);
        d5 = snd (AzureDest_complete None d4)
    in block_ids d5 = map block_id_of [4, 1, 2, 3]
       \<and> committed (blob_client d5) = Some ''dabc'')"
  by (simp add: Let_def AzureDest_upload_part_def AzureDest_complete_def block_id_of_1_to_4 block_id_of_Suc_0
      sort_block_ids_1_to_4 del: sort_key_simps)


text \<open>
  \<^verbatim>\<open>S3Dest.complete\<close> sorts by the part number itself: whatever the arrival order, the
  list it passes on is ascending and holds the same entries.
\<close>

lemma S3Dest_complete_ascending:
  "sorted (map snd (parts (snd (S3Dest_complete r d))))
   \<and> mset (parts (snd (S3Dest_complete r d))) = mset (parts d)"
  by (simp add: S3Dest_complete_def)

text \<open>
  C2 (a second \<^verbatim>\<open>upload_part(k, data)\<close> overwrites, so the assembled object is that of
  a single call): refuted on \<^verbatim>\<open>DummyDest\<close>, whose assembled bytes hold the data twice,
  and on \<^verbatim>\<open>S3Dest\<close>, whose part list for \<^verbatim>\<open>complete_multipart_upload\<close> holds part 1
  twice.
\<close>

theorem upload_part_twice_counterexample:
  "combined_data (snd (DummyDest_complete (snd (DummyDest_upload_part 1 ''ab''
      (snd (DummyDest_upload_part 1 ''ab''
        \<lparr>dummy_parts = [], completed = False, combined_data = None\<rparr>)))))) = Some ''abab''
   \<and> combined_data (snd (DummyDest_complete (snd (DummyDest_upload_part 1 ''ab''
        \<lparr>dummy_parts = [], completed = False, combined_data = None\<rparr>)))) = Some ''ab''
   \<and> parts (snd (S3Dest_complete None (snd (S3Dest_upload_part None ''e1'' 1 ''ab''
      (snd (S3Dest_upload_part None ''e1'' 1 ''ab''
        \<lparr>bucket = ''b'', key = ''k'', upload_id = ''u'', parts = []\<rparr>))))))
       = [(''e1'', 1), (''e1'', 1)]
   \<and> parts (snd (S3Dest_complete None (snd (S3Dest_upload_part None ''e1'' 1 ''ab''
        \<lparr>bucket = ''b'', key = ''k'', upload_id = ''u'', parts = []\<rparr>))))
       = [(''e1'', 1)]"
  by (simp add: DummyDest_complete_def DummyDest_upload_part_def S3Dest_complete_def
      S3Dest_upload_part_def strip_quotes_def)

text \<open>
  C2 as amended: a second successful \<^verbatim>\<open>upload_part(k, data)\<close> appends a second entry
  for \<open>k\<close> to the handle's registry (\<^verbatim>\<open>S3Dest.parts\<close>, \<^verbatim>\<open>AzureDest.block_ids\<close>,
  \<^verbatim>\<open>DummyDest.parts\<close>) or counts it again (\<^verbatim>\<open>GCSDest.part_count\<close>); only the data
  staged at the provider under \<open>k\<close> is overwritten, and \<^verbatim>\<open>complete\<close> passes both
  entries on.
\<close>

theorem upload_part_twice_appends_twice:
  "parts (snd (S3Dest_upload_part None t k data (snd (S3Dest_upload_part None t k data s3))))
     = parts s3 @ [(strip_quotes t, k), (strip_quotes t, k)]
   \<and> block_ids (snd (AzureDest_upload_part None k data
        (snd (AzureDest_upload_part None k data az))))
     = block_ids az @ [block_id_of k, block_id_of k]
   \<and> staged (blob_client (snd (AzureDest_upload_part None k data
        (snd (AzureDest_upload_part None k data az)))))
     = (staged (blob_client az))(block_id_of k \<mapsto> data)
   \<and> part_count (snd (GCSDest_upload_part None k data
        (snd (GCSDest_upload_part None k data gcs))))
     = part_count gcs + 2
   \<and> gcs_bucket (snd (GCSDest_upload_part None k data
        (snd (GCSDest_upload_part None k data gcs))))
     = (gcs_bucket gcs)(part_name gcs k \<mapsto> data)
   \<and> dummy_parts (snd (DummyDest_upload_part k data (snd (DummyDest_upload_part k data dm))))
     = dummy_parts dm @ [(k, data), (k, data)]
   \<and> length (filter (\<lambda>p. snd p = k) (parts (snd (S3Dest_complete r
        (snd (S3Dest_upload_part None t k data (snd (S3Dest_upload_part None t k data s3))))))))
     = length (filter (\<lambda>p. snd p = k) (parts s3)) + 2
   \<and> length (filter (\<lambda>i. i = block_id_of k) (block_ids (snd (AzureDest_complete r
        (snd (AzureDest_upload_part None k data (snd (AzureDest_upload_part None k data az))))))))
     = length (filter (\<lambda>i. i = block_id_of k) (block_ids az)) + 2"
proof -
  have f: "length (filter P (sort_key g xs)) = length (filter P xs)" for P and g :: "'a \<Rightarrow> 'b::linorder" and xs
    by (simp add: filter_sort)
  show ?thesis
    by (simp add: S3Dest_upload_part_def AzureDest_upload_part_def GCSDest_upload_part_def
        DummyDest_upload_part_def S3Dest_complete_def AzureDest_complete_def part_name_def f
        Let_def split: option.splits)
qed

subsection \<open>One part: the retry loop\<close>

lemma try_part_cases:
  obtains (read_failed) e where "read_exn env (i::nat) a = Some e"
      "try_part env src i a d =
         (Some e, [(ReadRange (part_offset (get_size src) i) (bytes_to_read (get_size src) i), Some e)], d)"
  | (uploaded) r d' where "read_exn env i a = None"
      "upload_part env a (i + 1)
         (read_range src (part_offset (get_size src) i) (bytes_to_read (get_size src) i)) d = (r, d')"
      "try_part env src i a d =
         (r, [(ReadRange (part_offset (get_size src) i) (bytes_to_read (get_size src) i), None),
              (UploadPart (i + 1)
                 (read_range src (part_offset (get_size src) i) (bytes_to_read (get_size src) i)), r)],
          d')"
proof (cases "read_exn env i a")
  case (Some e)
  then show ?thesis by (intro read_failed [of e]) (simp_all add: try_part_def Let_def)
next
  case None
  obtain r d' where u: "upload_part env a (i + 1)
         (read_range src (part_offset (get_size src) i) (bytes_to_read (get_size src) i)) d = (r, d')"
    by (cases "upload_part env a (i + 1)
         (read_range src (part_offset (get_size src) i) (bytes_to_read (get_size src) i)) d")
  show ?thesis
    by (rule uploaded [OF None u]) (use u in \<open>simp add: try_part_def Let_def None\<close>)
qed

lemma attempts_append [simp]: "attempts (xs @ ys) = attempts xs + attempts ys"
  by (simp add: attempts_def)

lemma attempts_Cons_Sleep [simp]: "attempts ((Sleep n, r) # xs) = attempts xs"
  by (simp add: attempts_def)

lemma attempts_try_part: "attempts (fst (snd (try_part env src i a d))) = 1"
  by (cases rule: try_part_cases [of env i a src d]) (simp_all add: attempts_def)

lemma transfer_part_loop_unfold:
  assumes "try_part env src i a d = (r, lg, d')"
  shows "r = None \<Longrightarrow> transfer_part_loop env src i a d = (None, lg, d')"
    and "r = Some e \<Longrightarrow> 3 \<le> a + 1 \<Longrightarrow> transfer_part_loop env src i a d = (Some e, lg, d')"
    and "r = Some e \<Longrightarrow> \<not> 3 \<le> a + 1 \<Longrightarrow>
         transfer_part_loop env src i (a + 1) d' = (r2, lg2, d2) \<Longrightarrow>
         transfer_part_loop env src i a d = (r2, lg @ (Sleep (a + 1), None) # lg2, d2)"
  using assms by (subst transfer_part_loop.simps, simp)+

lemma transfer_part_loop_attempts:
  "a < 3 \<Longrightarrow> attempts (fst (snd (transfer_part_loop env src i a d))) \<le> 3 - a
     \<and> (fst (transfer_part_loop env src i a d) \<noteq> None \<longrightarrow>
          attempts (fst (snd (transfer_part_loop env src i a d))) = 3 - a)"
proof (induction env src i a d rule: transfer_part_loop.induct)
  case (1 env src i a d)
  obtain r lg d' where t: "try_part env src i a d = (r, lg, d')"
    by (cases "try_part env src i a d")
  have one: "attempts lg = 1" using attempts_try_part [of env src i a d] by (simp add: t)
  show ?case
  proof (cases r)
    case None
    show ?thesis using "1.prems" one
      by (simp add: transfer_part_loop_unfold(1) [OF t None])
  next
    case (Some e)
    show ?thesis
    proof (cases "3 \<le> a + 1")
      case True
      from True "1.prems" have "3 - a = 1" by arith
      then show ?thesis using one
        by (simp add: transfer_part_loop_unfold(2) [OF t Some True])
    next
      case False
      then have a: "a + 1 < 3" by simp
      obtain r2 lg2 d2 where l: "transfer_part_loop env src i (a + 1) d' = (r2, lg2, d2)"
        by (cases "transfer_part_loop env src i (a + 1) d'")
      have ih: "attempts lg2 \<le> 3 - (a + 1)" "r2 \<noteq> None \<longrightarrow> attempts lg2 = 3 - (a + 1)"
        using "1.IH" [OF t [symmetric] Some refl False a] unfolding l by simp_all
      show ?thesis using ih one a
        by (auto simp add: transfer_part_loop_unfold(3) [OF t Some False l])
    qed
  qed
qed


lemma transfer_part_loop_log_inv:
  assumes step: "\<And>a d. P (fst (snd (try_part env src i a d)))"
    and app: "\<And>xs ys n. P xs \<Longrightarrow> P ys \<Longrightarrow> P (xs @ (Sleep n, None) # ys)"
  shows "P (fst (snd (transfer_part_loop env src i a d)))"
  using step app
proof (induction env src i a d rule: transfer_part_loop.induct)
  case (1 env src i a d)
  obtain r lg d' where t: "try_part env src i a d = (r, lg, d')"
    by (cases "try_part env src i a d")
  have lg: "P lg" using "1.prems"(1) [of a d] by (simp add: t)
  show ?case
  proof (cases r)
    case None
    show ?thesis using lg by (simp add: transfer_part_loop_unfold(1) [OF t None])
  next
    case (Some e)
    show ?thesis
    proof (cases "3 \<le> a + 1")
      case True
      show ?thesis using lg by (simp add: transfer_part_loop_unfold(2) [OF t Some True])
    next
      case False
      obtain r2 lg2 d2 where l: "transfer_part_loop env src i (a + 1) d' = (r2, lg2, d2)"
        by (cases "transfer_part_loop env src i (a + 1) d'")
      have "P lg2"
        using "1.IH" [OF t [symmetric] Some refl False "1.prems"] unfolding l by simp
      with lg have "P (lg @ (Sleep (a + 1), None) # lg2)" by (rule "1.prems"(2))
      then show ?thesis by (simp add: transfer_part_loop_unfold(3) [OF t Some False l])
    qed
  qed
qed

lemma count_call_append [simp]: "count_call c (xs @ ys) = count_call c xs + count_call c ys"
  by (simp add: count_call_def)

lemma count_call_Cons [simp]:
  "count_call c (x # xs) = (if fst x = c then 1 else 0) + count_call c xs"
  by (simp add: count_call_def)

lemma count_call_Nil [simp]: "count_call c [] = 0"
  by (simp add: count_call_def)

lemma try_part_no_terminal_call:
  "count_call Complete (fst (snd (try_part env src i a d))) = 0
   \<and> count_call Delete (fst (snd (try_part env src i a d))) = 0
   \<and> count_call Abort (fst (snd (try_part env src i a d))) = 0"
  by (cases rule: try_part_cases [of env i a src d]) simp_all

lemma transfer_part_no_terminal_call:
  "count_call Complete (fst (snd (transfer_part env src i d))) = 0
   \<and> count_call Delete (fst (snd (transfer_part env src i d))) = 0
   \<and> count_call Abort (fst (snd (transfer_part env src i d))) = 0"
  unfolding transfer_part_def
  by (rule transfer_part_loop_log_inv) (simp_all add: try_part_no_terminal_call)

lemma delivered_append [simp]: "delivered (xs @ ys) = delivered xs @ delivered ys"
  by (induction xs rule: delivered.induct) simp_all

lemma try_part_delivered:
  "delivered (fst (snd (try_part env src i a d)))
     = (if fst (try_part env src i a d) = None then [(i + 1, part_data src i)] else [])"
  by (cases rule: try_part_cases [of env i a src d]) (auto simp: part_data_def)

lemma transfer_part_loop_delivered:
  "delivered (fst (snd (transfer_part_loop env src i a d)))
     = (if fst (transfer_part_loop env src i a d) = None then [(i + 1, part_data src i)] else [])"
proof (induction env src i a d rule: transfer_part_loop.induct)
  case (1 env src i a d)
  obtain r lg d' where t: "try_part env src i a d = (r, lg, d')"
    by (cases "try_part env src i a d")
  have lg: "delivered lg = (if r = None then [(i + 1, part_data src i)] else [])"
    using try_part_delivered [of env src i a d] by (simp add: t)
  show ?case
  proof (cases r)
    case None
    show ?thesis using lg None by (simp add: transfer_part_loop_unfold(1) [OF t None])
  next
    case (Some e)
    show ?thesis
    proof (cases "3 \<le> a + 1")
      case True
      show ?thesis using lg Some by (simp add: transfer_part_loop_unfold(2) [OF t Some True])
    next
      case False
      obtain r2 lg2 d2 where l: "transfer_part_loop env src i (a + 1) d' = (r2, lg2, d2)"
        by (cases "transfer_part_loop env src i (a + 1) d'")
      have "delivered lg2 = (if r2 = None then [(i + 1, part_data src i)] else [])"
        using "1.IH" [OF t [symmetric] Some refl False] unfolding l by simp
      then show ?thesis using lg Some
        by (simp add: transfer_part_loop_unfold(3) [OF t Some False l])
    qed
  qed
qed


text \<open>
  C8 (retry): a part whose first two reads raise and whose third attempt goes through
  returns normally after exactly three attempts, with the two sleeps of 1 and 2 seconds
  between them; and no part is ever attempted more than three times, a part that fails
  having been attempted exactly three times.
\<close>

theorem transfer_part_third_attempt_succeeds:
  assumes r0: "read_exn env i 0 = Some e0" and r1: "read_exn env i 1 = Some e1"
    and r2: "read_exn env i 2 = None"
    and up: "upload_part env 2 (i + 1) (part_data src i) d = (None, d')"
  shows "transfer_part env src i d =
           (None,
            [(ReadRange (part_offset (get_size src) i) (bytes_to_read (get_size src) i), Some e0),
             (Sleep 1, None),
             (ReadRange (part_offset (get_size src) i) (bytes_to_read (get_size src) i), Some e1),
             (Sleep 2, None),
             (ReadRange (part_offset (get_size src) i) (bytes_to_read (get_size src) i), None),
             (UploadPart (i + 1) (part_data src i), None)],
            d')
         \<and> attempts (fst (snd (transfer_part env src i d))) = 3
         \<and> sleeps (fst (snd (transfer_part env src i d))) = [1, 2]
         \<and> attempts (fst (snd (transfer_part env2 src2 j d2))) \<le> 3
         \<and> (fst (transfer_part env2 src2 j d2) \<noteq> None \<longrightarrow>
              attempts (fst (snd (transfer_part env2 src2 j d2))) = 3)"
proof -
  let ?rd = "ReadRange (part_offset (get_size src) i) (bytes_to_read (get_size src) i)"
  have t0: "try_part env src i 0 d = (Some e0, [(?rd, Some e0)], d)"
    using r0 by (simp add: try_part_def Let_def)
  have t1: "try_part env src i (0 + 1) d = (Some e1, [(?rd, Some e1)], d)"
    using r1 by (simp add: try_part_def Let_def)
  have t2: "try_part env src i (0 + 1 + 1) d =
              (None, [(?rd, None), (UploadPart (i + 1) (part_data src i), None)], d')"
    using up r2 by (simp add: try_part_def Let_def part_data_def numeral_2_eq_2)
  have l2: "transfer_part_loop env src i (0 + 1 + 1) d =
              (None, [(?rd, None), (UploadPart (i + 1) (part_data src i), None)], d')"
    by (rule transfer_part_loop_unfold(1) [OF t2 refl])
  have l1: "transfer_part_loop env src i (0 + 1) d =
              (None, [(?rd, Some e1)] @ (Sleep (0 + 1 + 1), None)
                 # [(?rd, None), (UploadPart (i + 1) (part_data src i), None)], d')"
    by (rule transfer_part_loop_unfold(3) [OF t1 refl _ l2]) simp
  have l0: "transfer_part_loop env src i 0 d =
              (None, [(?rd, Some e0)] @ (Sleep (0 + 1), None)
                 # ([(?rd, Some e1)] @ (Sleep (0 + 1 + 1), None)
                 # [(?rd, None), (UploadPart (i + 1) (part_data src i), None)]), d')"
    by (rule transfer_part_loop_unfold(3) [OF t0 refl _ l1]) simp
  have eq: "transfer_part env src i d =
           (None, [(?rd, Some e0), (Sleep 1, None), (?rd, Some e1), (Sleep 2, None),
                   (?rd, None), (UploadPart (i + 1) (part_data src i), None)], d')"
    unfolding transfer_part_def l0 by (simp add: numeral_2_eq_2)
  have gen: "attempts (fst (snd (transfer_part env2 src2 j d2))) \<le> 3
         \<and> (fst (transfer_part env2 src2 j d2) \<noteq> None \<longrightarrow>
              attempts (fst (snd (transfer_part env2 src2 j d2))) = 3)"
    using transfer_part_loop_attempts [of 0 env2 src2 j d2] by (simp add: transfer_part_def)
  show ?thesis
    using gen by (simp add: eq attempts_def)
qed

theorem transfer_part_third_attempt_succeeds_witness:
  "(let env = \<lparr>read_exn = (\<lambda>i a. if a < 2 then Some (SdkError ''timeout'') else None),
               upload_exn = (\<lambda>k a. None), etag = (\<lambda>k. ''etag''), complete_exn = None,
               cleanup_exn = (\<lambda>i. None), abort_exn = None, delete_exn = None\<rparr>;
        src = \<lparr>size_src = 3, content = ''abc'', deleted = False\<rparr>;
        d = Dummy \<lparr>dummy_parts = [], completed = False, combined_data = None\<rparr>;
        lg = fst (snd (transfer_part env src 0 d))
    in read_exn env 0 0 = Some (SdkError ''timeout'')
       \<and> read_exn env 0 1 = Some (SdkError ''timeout'')
       \<and> read_exn env 0 2 = None
       \<and> fst (upload_part env 2 1 (part_data src 0) d) = None
       \<and> fst (transfer_part env src 0 d) = None
       \<and> lg = [(ReadRange 0 3, Some (SdkError ''timeout'')), (Sleep 1, None),
                (ReadRange 0 3, Some (SdkError ''timeout'')), (Sleep 2, None),
                (ReadRange 0 3, None), (UploadPart 1 ''abc'', None)]
       \<and> attempts lg = 3 \<and> sleeps lg = [1, 2])"
proof -
  let ?env = "\<lparr>read_exn = (\<lambda>i a. if a < 2 then Some (SdkError ''timeout'') else None),
               upload_exn = (\<lambda>k a. None), etag = (\<lambda>k. ''etag''), complete_exn = None,
               cleanup_exn = (\<lambda>i. None), abort_exn = None, delete_exn = None\<rparr>"
  let ?src = "\<lparr>size_src = 3, content = ''abc'', deleted = False\<rparr>"
  let ?d = "Dummy \<lparr>dummy_parts = [], completed = False, combined_data = None\<rparr>"
  have pd: "part_data ?src 0 = ''abc''" "part_offset (get_size ?src) 0 = 0"
    "bytes_to_read (get_size ?src) 0 = 3"
    by (simp_all add: part_data_def read_range_def part_offset_def bytes_to_read_def get_size_def
        chunk_size_def default_chunk_def)
  have up: "upload_part ?env 2 (0 + 1) (part_data ?src 0) ?d
      = (None, Dummy \<lparr>dummy_parts = [(1, ''abc'')], completed = False, combined_data = None\<rparr>)"
    by (simp add: pd DummyDest_upload_part_def)
  have "read_exn ?env 0 0 = Some (SdkError ''timeout'')"
    "read_exn ?env 0 1 = Some (SdkError ''timeout'')" "read_exn ?env 0 2 = None"
    by simp_all
  from transfer_part_third_attempt_succeeds [OF this up]
  show ?thesis using up by (simp add: pd Let_def DummyDest_upload_part_def attempts_def)
qed

subsection \<open>The whole move\<close>

lemma transfer_all_no_terminal_call:
  "count_call Complete (fst (snd (transfer_all env src order d))) = 0
   \<and> count_call Delete (fst (snd (transfer_all env src order d))) = 0
   \<and> count_call Abort (fst (snd (transfer_all env src order d))) = 0"
proof (induction order arbitrary: d)
  case Nil
  show ?case by simp
next
  case (Cons i rest)
  obtain r lg d' where t: "transfer_part env src i d = (r, lg, d')"
    by (cases "transfer_part env src i d")
  obtain r' lg' d'' where a: "transfer_all env src rest d' = (r', lg', d'')"
    by (cases "transfer_all env src rest d'")
  from transfer_part_no_terminal_call [of env src i d] Cons.IH [of d']
  show ?case by (simp add: t a)
qed

lemma transfer_all_delivered:
  "fst (transfer_all env src order d) = None \<Longrightarrow>
   delivered (fst (snd (transfer_all env src order d)))
     = map (\<lambda>i. (i + 1, part_data src i)) order"
proof (induction order arbitrary: d)
  case Nil
  show ?case by simp
next
  case (Cons i rest)
  obtain r lg d' where t: "transfer_part env src i d = (r, lg, d')"
    by (cases "transfer_part env src i d")
  obtain r' lg' d'' where a: "transfer_all env src rest d' = (r', lg', d'')"
    by (cases "transfer_all env src rest d'")
  from Cons.prems have r: "r = None" and r': "r' = None"
    by (simp_all add: t a split: option.splits)
  have "delivered lg = [(i + 1, part_data src i)]"
    using transfer_part_loop_delivered [of env src i 0 d] r
    by (simp add: t [unfolded transfer_part_def])
  moreover have "delivered lg' = map (\<lambda>i. (i + 1, part_data src i)) rest"
    using Cons.IH [of d'] r' by (simp add: a)
  ultimately show ?case by (simp add: t a)
qed

lemma move_file_body_cases:
  obtains (plan_error) e where "num_parts (get_size src) = Inl e"
      "move_file_body env sched threads src d = (Inl e, [], src, d)"
  | (pool_error) n where "num_parts (get_size src) = Inr n" "pool_size threads n \<le> 0"
      "move_file_body env sched threads src d = (Inl ValueError, [], src, d)"
  | (part_error) n e lg d1 where "num_parts (get_size src) = Inr n" "0 < pool_size threads n"
      "transfer_all env src (sched [0 ..< n]) d = (Some e, lg, d1)"
      "move_file_body env sched threads src d = (Inl e, lg, src, d1)"
  | (complete_error) n lg d1 e d2 where "num_parts (get_size src) = Inr n"
      "0 < pool_size threads n"
      "transfer_all env src (sched [0 ..< n]) d = (None, lg, d1)"
      "complete env d1 = (Some e, d2)"
      "move_file_body env sched threads src d = (Inl e, lg @ [(Complete, Some e)], src, d2)"
  | (delete_error) n lg d1 d2 e where "num_parts (get_size src) = Inr n"
      "0 < pool_size threads n"
      "transfer_all env src (sched [0 ..< n]) d = (None, lg, d1)"
      "complete env d1 = (None, d2)" "delete_exn env = Some e"
      "move_file_body env sched threads src d =
         (Inl e, lg @ [(Complete, None), (Delete, Some e)], src, d2)"
  | (success) n lg d1 d2 where "num_parts (get_size src) = Inr n"
      "0 < pool_size threads n"
      "transfer_all env src (sched [0 ..< n]) d = (None, lg, d1)"
      "complete env d1 = (None, d2)" "delete_exn env = None"
      "move_file_body env sched threads src d =
         (Inr True, lg @ [(Complete, None), (Delete, None)], src\<lparr>deleted := True\<rparr>, d2)"
proof (cases "num_parts (get_size src)")
  case (Inl e)
  then show ?thesis by (intro plan_error [of e]) (simp_all add: move_file_body_def)
next
  case (Inr n)
  show ?thesis
  proof (cases "pool_size threads n \<le> 0")
    case True
    then show ?thesis using Inr by (intro pool_error [of n]) (simp_all add: move_file_body_def)
  next
    case False
    then have pool: "0 < pool_size threads n" by simp
    obtain r lg d1 where ta: "transfer_all env src (sched [0 ..< n]) d = (r, lg, d1)"
      by (cases "transfer_all env src (sched [0 ..< n]) d")
    show ?thesis
    proof (cases r)
      case (Some e)
      show ?thesis
        by (rule part_error [OF Inr pool ta [unfolded Some]])
          (simp add: move_file_body_def Inr False ta Some)
    next
      case None
      obtain rc d2 where c: "complete env d1 = (rc, d2)" by (cases "complete env d1")
      show ?thesis
      proof (cases rc)
        case (Some e)
        show ?thesis
          by (rule complete_error [OF Inr pool ta [unfolded None] c [unfolded Some]])
            (simp add: move_file_body_def Inr False ta None c Some)
      next
        case rcN: None
        show ?thesis
        proof (cases "delete_exn env")
          case (Some e)
          show ?thesis
            by (rule delete_error [OF Inr pool ta [unfolded None] c [unfolded rcN] Some])
              (simp add: move_file_body_def Inr False ta None c rcN delete_def Some)
        next
          case dN: None
          show ?thesis
            by (rule success [OF Inr pool ta [unfolded None] c [unfolded rcN] dN])
              (simp add: move_file_body_def Inr False ta None c rcN delete_def dN)
        qed
      qed
    qed
  qed
qed

lemma move_file_unfold:
  "move_file_body env sched threads src d = (Inr ok, lg, src', d') \<Longrightarrow>
     move_file env sched threads src d = (Inr ok, lg, src', d')"
  "move_file_body env sched threads src d = (Inl e, lg, src', d') \<Longrightarrow>
     move_file env sched threads src d
       = (Inl e, lg @ [(Abort, fst (abort env d'))], src', snd (abort env d'))"
  by (simp_all add: move_file_def split: prod.splits)


lemma num_parts_0: "num_parts 0 = Inl ZeroDivisionError"
  by (simp add: num_parts_def chunk_size_def default_chunk_def truediv_def)

text \<open>
  C3 (a zero-length source is moved as an empty object: zero parts, finalize, delete,
  success): in the code the size 0 makes \<^verbatim>\<open>file_size / chunk_size\<close> raise
  \<open>ZeroDivisionError\<close> inside the \<^verbatim>\<open>try\<close> block, so the only call made on either
  handle is \<^verbatim>\<open>dest.abort()\<close>, and the error is raised to the caller; the source is
  left as it was.
\<close>

theorem move_file_zero_size_raises:
  "move_file env sched threads \<lparr>size_src = 0, content = c, deleted = False\<rparr> d =
     (Inl ZeroDivisionError, [(Abort, fst (abort env d))],
      \<lparr>size_src = 0, content = c, deleted = False\<rparr>, snd (abort env d))"
  by (simp add: move_file_def move_file_body_def get_size_def num_parts_0 split: prod.splits)


text \<open>
  C4 as amended: when all parts and \<^verbatim>\<open>complete\<close> succeed and \<^verbatim>\<open>src.delete()\<close> raises
  \<open>e\<close>, \<^verbatim>\<open>move_file\<close> raises \<open>e\<close> to the caller after calling \<^verbatim>\<open>dest.abort()\<close>
  once: the destination handle receives both terminal calls, \<^verbatim>\<open>complete\<close> and then
  \<^verbatim>\<open>abort\<close>, and the source is left undeleted.
\<close>

theorem move_file_delete_failure_aborts:
  assumes plan: "num_parts (get_size src) = Inr n" and pool: "0 < pool_size threads n"
    and copy: "transfer_all env src (sched [0 ..< n]) d = (None, lg1, d1)"
    and fin: "complete env d1 = (None, d2)"
    and del: "delete_exn env = Some e"
  shows "move_file env sched threads src d
           = (Inl e, lg1 @ [(Complete, None), (Delete, Some e), (Abort, fst (abort env d2))],
              src, snd (abort env d2))
         \<and> count_call Complete
              (lg1 @ [(Complete, None), (Delete, Some e), (Abort, fst (abort env d2))]) = 1
         \<and> count_call Abort
              (lg1 @ [(Complete, None), (Delete, Some e), (Abort, fst (abort env d2))]) = 1"
proof -
  from transfer_all_no_terminal_call [of env src "sched [0 ..< n]" d]
  have none: "count_call Complete lg1 = 0" "count_call Abort lg1 = 0"
    by (simp_all add: copy)
  have pool': "\<not> pool_size threads n \<le> 0" using pool by simp
  have "move_file env sched threads src d
           = (Inl e, lg1 @ [(Complete, None), (Delete, Some e), (Abort, fst (abort env d2))],
              src, snd (abort env d2))"
    using move_file_unfold(2) [of env sched threads src d e
        "lg1 @ [(Complete, None), (Delete, Some e)]" src d2]
    by (simp add: move_file_body_def plan pool' copy fin del delete_def)
  then show ?thesis using none by simp
qed


lemma transfer_part_first_attempt:
  assumes "read_exn env i 0 = None"
    and "upload_part env 0 (i + 1) (part_data src i) d = (None, d')"
  shows "transfer_part env src i d =
           (None,
            [(ReadRange (part_offset (get_size src) i) (bytes_to_read (get_size src) i), None),
             (UploadPart (i + 1) (part_data src i), None)], d')"
  unfolding transfer_part_def
  by (rule transfer_part_loop_unfold(1) [OF _ refl])
    (use assms in \<open>simp add: try_part_def Let_def part_data_def\<close>)


lemma src_abc_plan:
  "get_size src_abc = 3" "num_parts 3 = Inr 1" "part_offset 3 0 = 0" "bytes_to_read 3 0 = 3"
  "part_data src_abc 0 = ''abc''"
  by (simp_all add: src_abc_def get_size_def num_parts_small default_chunk_def part_offset_def
      bytes_to_read_def chunk_size_def part_data_def read_range_def)


lemma transfer_all_abc:
  assumes "read_exn env 0 0 = None" and "upload_part env 0 1 ''abc'' d = (None, d')"
  shows "transfer_all env src_abc [0] d
           = (None, [(ReadRange 0 3, None), (UploadPart 1 ''abc'', None)], d')"
  using transfer_part_first_attempt [of env 0 src_abc d d'] assms
  by (simp add: src_abc_plan)


lemma block_id_of_1: "block_id_of 1 = ''MDAwMDAx''" "block_id_of (Suc 0) = ''MDAwMDAx''"
  by (simp_all add: block_id_of_1_to_4 block_id_of_Suc_0)

lemma azure_upload_abc:
  assumes "upload_exn env 1 0 = None"
  shows "upload_part env 0 1 ''abc'' (Azure (azure_fresh x))
           = (None, Azure \<lparr>blob_client = \<lparr>committed = x, staged = [''MDAwMDAx'' \<mapsto> ''abc'']\<rparr>,
                           block_ids = [''MDAwMDAx'']\<rparr>)"
  using assms by (simp add: AzureDest_upload_part_def azure_fresh_def block_id_of_1 Let_def)

lemma env_ok_fields:
  "read_exn env_ok i a = None" "upload_exn env_ok k a = None" "etag env_ok k = ''etag''"
  "complete_exn env_ok = None" "cleanup_exn env_ok i = None" "abort_exn env_ok = None"
  "delete_exn env_ok = None"
  by (simp_all add: env_ok_def)

lemma azure_run_delete_fails:
  fixes x :: "bytes option"
  defines "envD \<equiv> env_ok\<lparr>delete_exn := Some (SdkError ''AccessDenied'')\<rparr>"
    and "d1 \<equiv> Azure \<lparr>blob_client = \<lparr>committed = x, staged = [''MDAwMDAx'' \<mapsto> ''abc'']\<rparr>,
                      block_ids = [''MDAwMDAx'']\<rparr>"
    and "d2 \<equiv> Azure \<lparr>blob_client = \<lparr>committed = Some ''abc'', staged = [''MDAwMDAx'' \<mapsto> ''abc'']\<rparr>,
                      block_ids = [''MDAwMDAx'']\<rparr>"
    and "d3 \<equiv> Azure \<lparr>blob_client = \<lparr>committed = None, staged = [''MDAwMDAx'' \<mapsto> ''abc'']\<rparr>,
                      block_ids = [''MDAwMDAx'']\<rparr>"
  shows "transfer_all envD src_abc (id [0 ..< 1]) (Azure (azure_fresh x))
           = (None, [(ReadRange 0 3, None), (UploadPart 1 ''abc'', None)], d1)"
    and "complete envD d1 = (None, d2)"
    and "abort envD d2 = (None, d3)"
    and "move_file envD id 4 src_abc (Azure (azure_fresh x))
           = (Inl (SdkError ''AccessDenied''),
              [(ReadRange 0 3, None), (UploadPart 1 ''abc'', None), (Complete, None),
               (Delete, Some (SdkError ''AccessDenied'')), (Abort, None)],
              src_abc, d3)"
proof -
  have ta: "transfer_all envD src_abc [0] (Azure (azure_fresh x))
      = (None, [(ReadRange 0 3, None), (UploadPart 1 ''abc'', None)], d1)"
    unfolding d1_def
    by (rule transfer_all_abc [OF _ azure_upload_abc]) (simp_all add: envD_def env_ok_fields)
  then show "transfer_all envD src_abc (id [0 ..< 1]) (Azure (azure_fresh x))
           = (None, [(ReadRange 0 3, None), (UploadPart 1 ''abc'', None)], d1)"
    by simp
  show c: "complete envD d1 = (None, d2)"
    by (simp add: d1_def d2_def envD_def env_ok_fields AzureDest_complete_def)
  show a: "abort envD d2 = (None, d3)"
    by (simp add: d2_def d3_def envD_def env_ok_fields AzureDest_abort_def)
  show "move_file envD id 4 src_abc (Azure (azure_fresh x))
           = (Inl (SdkError ''AccessDenied''),
              [(ReadRange 0 3, None), (UploadPart 1 ''abc'', None), (Complete, None),
               (Delete, Some (SdkError ''AccessDenied'')), (Abort, None)],
              src_abc, d3)"
    using ta c a
    by (simp add: move_file_def move_file_body_def src_abc_plan pool_size_def delete_def
        envD_def del: transfer_all.simps complete.simps abort.simps)
qed

lemma transfer_part_loop_dest_inv:
  assumes step: "\<And>a d. Q d \<Longrightarrow> Q (snd (snd (try_part env src i a d)))" and init: "Q d"
  shows "Q (snd (snd (transfer_part_loop env src i a d)))"
  using step init
proof (induction env src i a d rule: transfer_part_loop.induct)
  case (1 env src i a d)
  obtain r lg d' where t: "try_part env src i a d = (r, lg, d')"
    by (cases "try_part env src i a d")
  have d': "Q d'" using "1.prems"(1) [OF "1.prems"(2), of a] by (simp add: t)
  show ?case
  proof (cases r)
    case None
    show ?thesis using d' by (simp add: transfer_part_loop_unfold(1) [OF t None])
  next
    case (Some e)
    show ?thesis
    proof (cases "3 \<le> a + 1")
      case True
      show ?thesis using d' by (simp add: transfer_part_loop_unfold(2) [OF t Some True])
    next
      case False
      obtain r2 lg2 d2 where l: "transfer_part_loop env src i (a + 1) d' = (r2, lg2, d2)"
        by (cases "transfer_part_loop env src i (a + 1) d'")
      have "Q d2"
        using "1.IH" [OF t [symmetric] Some refl False "1.prems"(1) d'] unfolding l by simp
      then show ?thesis by (simp add: transfer_part_loop_unfold(3) [OF t Some False l])
    qed
  qed
qed

lemma try_part_stays_azure:
  "\<exists>x. d = Azure x \<Longrightarrow> \<exists>x. snd (snd (try_part env src i a d)) = Azure x"
  by (cases rule: try_part_cases [of env i a src d]) (auto simp: map_prod_def split: prod.splits)

lemma transfer_all_stays_azure:
  "\<exists>x. d = Azure x \<Longrightarrow> \<exists>x. snd (snd (transfer_all env src order d)) = Azure x"
proof (induction order arbitrary: d)
  case Nil
  then show ?case by simp
next
  case (Cons i rest)
  obtain r lg d' where t: "transfer_part env src i d = (r, lg, d')"
    by (cases "transfer_part env src i d")
  obtain r' lg' d'' where a: "transfer_all env src rest d' = (r', lg', d'')"
    by (cases "transfer_all env src rest d'")
  have "\<exists>x. snd (snd (transfer_part_loop env src i 0 d)) = Azure x"
    by (rule transfer_part_loop_dest_inv [where Q = "\<lambda>d. \<exists>x. d = Azure x"])
      (use Cons.prems try_part_stays_azure in auto)
  then have "\<exists>x. d' = Azure x" using t by (simp add: transfer_part_def)
  from Cons.IH [OF this] show ?case by (simp add: t a)
qed

lemma complete_stays_azure: "complete env (Azure x) = (r, d2) \<Longrightarrow> \<exists>z. d2 = Azure z"
  by (cases "AzureDest_complete (complete_exn env) x") auto

lemma abort_azure:
  "abort env (Azure x) =
     (None, Azure (case abort_exn env of Some e \<Rightarrow> x
                   | None \<Rightarrow> x\<lparr>blob_client := (blob_client x)\<lparr>committed := None\<rparr>\<rparr>))"
  by (simp add: AzureDest_abort_def split: option.splits)

lemma move_file_body_azure:
  assumes "move_file_body env sched threads src (Azure x) = (res, lg, src', d')"
  shows "(\<exists>y. d' = Azure y) \<and> count_call Abort lg = 0"
proof (cases rule: move_file_body_cases [of src env sched threads "Azure x"])
  case (plan_error e)
  with assms show ?thesis by auto
next
  case (pool_error n)
  with assms show ?thesis by auto
next
  case (part_error n e lg1 d1)
  from transfer_all_stays_azure [of "Azure x" env src "sched [0 ..< n]"]
    transfer_all_no_terminal_call [of env src "sched [0 ..< n]" "Azure x"]
  show ?thesis using assms part_error by auto
next
  case (complete_error n lg1 d1 e d2)
  from transfer_all_stays_azure [of "Azure x" env src "sched [0 ..< n]"]
  obtain y where y: "d1 = Azure y" using complete_error(3) by auto
  have "\<exists>z. d2 = Azure z" by (rule complete_stays_azure [OF complete_error(4) [unfolded y]])
  with transfer_all_no_terminal_call [of env src "sched [0 ..< n]" "Azure x"]
  show ?thesis using assms complete_error by auto
next
  case (delete_error n lg1 d1 d2 e)
  from transfer_all_stays_azure [of "Azure x" env src "sched [0 ..< n]"]
  obtain y where y: "d1 = Azure y" using delete_error(3) by auto
  have "\<exists>z. d2 = Azure z" by (rule complete_stays_azure [OF delete_error(4) [unfolded y]])
  with transfer_all_no_terminal_call [of env src "sched [0 ..< n]" "Azure x"]
  show ?thesis using assms delete_error by auto
next
  case (success n lg1 d1 d2)
  from transfer_all_stays_azure [of "Azure x" env src "sched [0 ..< n]"]
  obtain y where y: "d1 = Azure y" using success(3) by auto
  have "\<exists>z. d2 = Azure z" by (rule complete_stays_azure [OF success(4) [unfolded y]])
  with transfer_all_no_terminal_call [of env src "sched [0 ..< n]" "Azure x"]
  show ?thesis using assms success by auto
qed

text \<open>
  C10 (a failed transfer to Azure deletes the blob under the destination name): whenever
  \<^verbatim>\<open>move_file\<close> raises with an Azure destination, \<^verbatim>\<open>abort\<close> has been called exactly
  once, as the last call, and returned normally; and unless the \<^verbatim>\<open>delete_blob\<close> request
  itself failed, no object is committed under the destination name afterwards, whatever
  was there before the transfer.
\<close>

theorem azure_failed_transfer_deletes_blob:
  assumes "move_file env sched threads src (Azure x) = (Inl e, lg, src', d')"
  shows "\<exists>y. d' = Azure y \<and> count_call Abort lg = 1 \<and> last lg = (Abort, None)
           \<and> (abort_exn env = None \<longrightarrow> committed (blob_client y) = None)"
proof -
  obtain res lg0 src0 d0 where b: "move_file_body env sched threads src (Azure x) = (res, lg0, src0, d0)"
    by (cases "move_file_body env sched threads src (Azure x)") auto
  from move_file_body_azure [OF b] obtain y0 where y0: "d0 = Azure y0"
    and na: "count_call Abort lg0 = 0" by auto
  show ?thesis
  proof (cases res)
    case (Inr ok)
    with assms b show ?thesis by (simp add: move_file_def)
  next
    case (Inl e0)
    from move_file_unfold(2) [OF b [unfolded Inl]] assms
    have "lg = lg0 @ [(Abort, fst (abort env d0))]" "d' = snd (abort env d0)" by simp_all
    then show ?thesis using na
      by (auto simp add: y0 AzureDest_abort_def split: option.splits)
  qed
qed


text \<open>
  C4 (a failing source delete is only logged: success is returned and abort is never
  invoked): refuted by a three-byte move to Azure whose source delete is denied. The
  call raises the delete error, \<^verbatim>\<open>abort\<close> is called after \<^verbatim>\<open>complete\<close>, and the blob
  that \<^verbatim>\<open>complete\<close> had committed is gone again.
\<close>

theorem move_file_delete_failure_counterexample:
  "move_file (env_ok\<lparr>delete_exn := Some (SdkError ''AccessDenied'')\<rparr>) id 4 src_abc
      (Azure (azure_fresh None))
     = (Inl (SdkError ''AccessDenied''),
        [(ReadRange 0 3, None), (UploadPart 1 ''abc'', None), (Complete, None),
         (Delete, Some (SdkError ''AccessDenied'')), (Abort, None)],
        src_abc,
        Azure \<lparr>blob_client = \<lparr>committed = None, staged = [''MDAwMDAx'' \<mapsto> ''abc'']\<rparr>,
               block_ids = [''MDAwMDAx'']\<rparr>)"
  by (rule azure_run_delete_fails(4))

theorem move_file_delete_failure_aborts_witness:
  "num_parts (get_size src_abc) = Inr 1 \<and> 0 < pool_size 4 1
   \<and> delete_exn (env_ok\<lparr>delete_exn := Some (SdkError ''AccessDenied'')\<rparr>)
        = Some (SdkError ''AccessDenied'')
   \<and> move_file (env_ok\<lparr>delete_exn := Some (SdkError ''AccessDenied'')\<rparr>) id 4 src_abc
        (Azure (azure_fresh (Some ''old'')))
       = (Inl (SdkError ''AccessDenied''),
          [(ReadRange 0 3, None), (UploadPart 1 ''abc'', None), (Complete, None),
           (Delete, Some (SdkError ''AccessDenied'')), (Abort, None)],
          src_abc,
          Azure \<lparr>blob_client = \<lparr>committed = None, staged = [''MDAwMDAx'' \<mapsto> ''abc'']\<rparr>,
                 block_ids = [''MDAwMDAx'']\<rparr>)
   \<and> count_call Complete
        [(ReadRange 0 3, None), (UploadPart 1 ''abc'', None), (Complete, None),
         (Delete, Some (SdkError ''AccessDenied'')), (Abort, None)] = 1
   \<and> count_call Abort
        [(ReadRange 0 3, None), (UploadPart 1 ''abc'', None), (Complete, None),
         (Delete, Some (SdkError ''AccessDenied'')), (Abort, None)] = 1"
proof -
  let ?env = "env_ok\<lparr>delete_exn := Some (SdkError ''AccessDenied'')\<rparr>"
  have plan: "num_parts (get_size src_abc) = Inr 1" by (simp add: src_abc_plan)
  have pool: "0 < pool_size 4 1" by (simp add: pool_size_def)
  have del: "delete_exn ?env = Some (SdkError ''AccessDenied'')" by simp
  note run = azure_run_delete_fails(1,2) [of "Some ''old''"]
  from move_file_delete_failure_aborts [where sched = id, OF plan pool run(1) run(2) del]
  show ?thesis using plan pool by (simp add: AzureDest_abort_def env_ok_fields)
qed

theorem azure_failed_transfer_deletes_blob_witness:
  "move_file (env_ok\<lparr>delete_exn := Some (SdkError ''AccessDenied'')\<rparr>) id 4 src_abc
      (Azure (azure_fresh (Some ''old'')))
     = (Inl (SdkError ''AccessDenied''),
        [(ReadRange 0 3, None), (UploadPart 1 ''abc'', None), (Complete, None),
         (Delete, Some (SdkError ''AccessDenied'')), (Abort, None)],
        src_abc,
        Azure \<lparr>blob_client = \<lparr>committed = None, staged = [''MDAwMDAx'' \<mapsto> ''abc'']\<rparr>,
               block_ids = [''MDAwMDAx'']\<rparr>)
   \<and> abort_exn (env_ok\<lparr>delete_exn := Some (SdkError ''AccessDenied'')\<rparr>) = None
   \<and> committed (blob_client
        \<lparr>blob_client = \<lparr>committed = None, staged = [''MDAwMDAx'' \<mapsto> ''abc'']\<rparr>,
         block_ids = [''MDAwMDAx'']\<rparr>) = None
   \<and> count_call Abort
        [(ReadRange 0 3, None), (UploadPart 1 ''abc'', None), (Complete, None),
         (Delete, Some (SdkError ''AccessDenied'')), (Abort, None)] = 1"
  using azure_failed_transfer_deletes_blob [OF azure_run_delete_fails(4) [of "Some ''old''"]]
    azure_run_delete_fails(4) [of "Some ''old''"]
  by (simp add: env_ok_fields)




subsection \<open>Round trip\<close>

lemma concat_chunks:
  "concat (map (\<lambda>i. take c (drop (i * c) xs)) [0 ..< n]) = take (n * c) xs"
proof (induction n)
  case 0
  show ?case by simp
next
  case (Suc n)
  have "take (n * c + c) xs = take (n * c) xs @ take c (drop (n * c) xs)"
    by (rule take_add)
  then show ?case using Suc by (simp add: add.commute)
qed

lemma part_data_chunk:
  assumes "size_src src = length (content src)"
  shows "part_data src i
           = take (chunk_size (size_src src)) (drop (i * chunk_size (size_src src)) (content src))"
proof -
  let ?c = "chunk_size (size_src src)" and ?xs = "content src"
  show ?thesis
  proof (cases "i * ?c + ?c \<le> size_src src")
    case True
    then show ?thesis
      by (simp add: part_data_def read_range_def bytes_to_read_def part_offset_def get_size_def)
  next
    case False
    then have "length (drop (i * ?c) ?xs) \<le> ?c" using assms by simp
    then have r: "take ?c (drop (i * ?c) ?xs) = drop (i * ?c) ?xs" by simp
    have "nat (int (size_src src) - int (i * ?c)) = size_src src - i * ?c"
      by (simp only: nat_minus_as_int)
    then have "nat (int (size_src src) - int (i * ?c)) = length (drop (i * ?c) ?xs)"
      using assms by (simp only: length_drop)
    then have "take (nat (int (size_src src) - int (i * ?c))) (drop (i * ?c) ?xs)
                 = drop (i * ?c) ?xs" by simp
    then show ?thesis using False r
      by (simp add: part_data_def read_range_def bytes_to_read_def part_offset_def get_size_def)
  qed
qed

lemma filter_eq_distinct:
  "distinct l \<Longrightarrow> filter (\<lambda>i. j = i) l = (if j \<in> set l then [j] else [])"
  by (induction l) auto

lemma sort_key_arrival_order:
  fixes f :: "nat \<Rightarrow> bytes"
  assumes "mset order = mset [0 ..< n]"
  shows "sort_key fst (map (\<lambda>i. (i + 1, f i)) order) = map (\<lambda>i. (i + 1, f i)) [0 ..< n]"
proof (rule properties_for_sort_key)
  let ?g = "\<lambda>i. (i + 1, f i)"
  show "mset (map ?g [0 ..< n]) = mset (map ?g order)" using assms by simp
  have d: "distinct order" using assms by (metis distinct_upt mset_eq_imp_distinct_iff)
  have s: "set order = set [0 ..< n]" using assms by (rule mset_eq_setD)
  have fl: "filter (\<lambda>x. fst (?g j) = fst x) (map ?g l) = map ?g (filter (\<lambda>i. j = i) l)" for j l
    by (induction l) auto
  show "filter (\<lambda>x. fst k = fst x) (map ?g [0 ..< n]) = filter (\<lambda>x. fst k = fst x) (map ?g order)"
    if "k \<in> set (map ?g [0 ..< n])" for k
  proof -
    from that obtain j where j: "j \<in> set [0 ..< n]" and k: "k = ?g j" by auto
    show ?thesis unfolding k fl using j d s by (simp add: filter_eq_distinct)
  qed
  have "map fst (map ?g [0 ..< n]) = map Suc [0 ..< n]" by simp
  also have "\<dots> = [Suc 0 ..< Suc n]" by (rule map_Suc_upt)
  finally have e: "map fst (map ?g [0 ..< n]) = [Suc 0 ..< Suc n]" .
  show "sorted (map fst (map ?g [0 ..< n]))" by (simp only: e sorted_upt)
qed


lemma move_file_success_body:
  assumes "move_file env sched threads src d = (Inr ok, lg, src', d')"
  shows "move_file_body env sched threads src d = (Inr ok, lg, src', d')"
proof -
  obtain res lg0 src0 d0 where b: "move_file_body env sched threads src d = (res, lg0, src0, d0)"
    by (cases "move_file_body env sched threads src d") auto
  show ?thesis
  proof (cases res)
    case (Inl e)
    from move_file_unfold(2) [OF b [unfolded Inl]] assms show ?thesis by simp
  next
    case (Inr ok')
    from move_file_unfold(1) [OF b [unfolded Inr]] assms show ?thesis by (simp add: b Inr)
  qed
qed

lemma success_delivered:
  assumes sz: "size_src src = length (content src)"
    and perm: "\<And>xs. mset (sched xs) = mset xs"
    and ok: "move_file env sched threads src d = (Inr True, lg, src', d')"
  obtains n where "num_parts (size_src src) = Inr n"
    and "concat (map snd (sort_key fst (delivered lg)))
           = take (n * chunk_size (size_src src)) (content src)"
proof -
  note b = move_file_success_body [OF ok]
  show ?thesis
  proof (cases rule: move_file_body_cases [of src env sched threads d])
    case (success n lg1 d1 d2)
    with b have lg: "lg = lg1 @ [(Complete, None), (Delete, None)]" by simp
    have "delivered lg1 = map (\<lambda>i. (i + 1, part_data src i)) (sched [0 ..< n])"
      using transfer_all_delivered [of env src "sched [0 ..< n]" d] success(3) by simp
    then have "sort_key fst (delivered lg) = map (\<lambda>i. (i + 1, part_data src i)) [0 ..< n]"
      using sort_key_arrival_order [OF perm, where f = "part_data src" and n = n] by (simp add: lg)
    then have "concat (map snd (sort_key fst (delivered lg)))
                 = concat (map (part_data src) [0 ..< n])"
      by (simp add: comp_def)
    also have "map (part_data src) [0 ..< n]
        = map (\<lambda>i. take (chunk_size (size_src src))
                     (drop (i * chunk_size (size_src src)) (content src))) [0 ..< n]"
      by (rule map_cong [OF refl]) (rule part_data_chunk [OF sz])
    also have "concat \<dots> = take (n * chunk_size (size_src src)) (content src)"
      by (rule concat_chunks)
    finally show ?thesis using success(1) by (intro that [of n]) (simp_all add: get_size_def)
  qed (use b in simp_all)
qed

lemma ceil_times_covers:
  fixes m c :: nat
  assumes "0 < c"
  shows "m \<le> (m + c - 1) div c * c"
proof (cases m)
  case 0
  then show ?thesis by simp
next
  case (Suc k)
  have "m + c - 1 < c + (m + c - 1) div c * c"
    using assms by (rule dividend_less_div_times)
  then show ?thesis using Suc by simp
qed

text \<open>
  C6 (round trip): for every source object a provider can report (the cached size is the
  length of the content, at most \<open>2\<^sup>5\<^sup>3\<close> bytes, the range on which the double
  quotient of the planner is exact), every pool size and every order in which the
  workers complete, a move that returns \<open>True\<close> has delivered to \<^verbatim>\<open>upload_part\<close> byte
  strings whose concatenation in ascending part-number order is the source's content.
  Part \<open>i\<close> carries the bytes read at \<open>part_offset\<close> and is tagged \<open>i + 1\<close>; retries
  of a failed attempt deliver nothing twice.
\<close>

theorem delivered_parts_reproduce_source:
  assumes sz: "size_src src = length (content src)"
    and bound: "length (content src) \<le> 2 ^ 53"
    and perm: "\<And>xs. mset (sched xs) = mset xs"
    and ok: "move_file env sched threads src d = (Inr True, lg, src', d')"
  shows "concat (map snd (sort_key fst (delivered lg))) = content src"
proof -
  from success_delivered [OF sz perm ok] obtain n
    where n: "num_parts (size_src src) = Inr n"
      and c: "concat (map snd (sort_key fst (delivered lg)))
                = take (n * chunk_size (size_src src)) (content src)"
    by blast
  have pos: "0 < size_src src"
  proof (rule ccontr)
    assume "\<not> 0 < size_src src"
    then have "size_src src = 0" by simp
    with n show False by (simp add: num_parts_0)
  qed
  then have cpos: "0 < chunk_size (size_src src)"
    by (simp add: chunk_size_def default_chunk_def)
  from num_parts_exact [OF pos] bound sz n
  have "n = (size_src src + chunk_size (size_src src) - 1) div chunk_size (size_src src)"
    by simp
  with ceil_times_covers [OF cpos, of "size_src src"]
  have "length (content src) \<le> n * chunk_size (size_src src)" by (simp add: sz)
  then show ?thesis by (simp add: c)
qed


lemma upload_part_dummy:
  "upload_part env a k data (Dummy dm)
     = (None, Dummy (dm\<lparr>dummy_parts := dummy_parts dm @ [(k, data)]\<rparr>))"
  by (simp add: DummyDest_upload_part_def)

text \<open>
  A run of three parts on two workers that complete in reverse order, the second part
  needing a second attempt: the destination of the test suite ends with the source's
  content.
\<close>

lemma src_three_parts_plan:
  "size_src src_three_parts = length (content src_three_parts)"
  "num_parts (get_size src_three_parts) = Inr 3"
  "part_offset (get_size src_three_parts) 0 = 0"
  "bytes_to_read (get_size src_three_parts) 0 = 2 ^ 26"
  "part_offset (get_size src_three_parts) 1 = 2 ^ 26"
  "bytes_to_read (get_size src_three_parts) 1 = 2 ^ 26"
  "part_offset (get_size src_three_parts) 2 = 2 ^ 27"
  "bytes_to_read (get_size src_three_parts) 2 = 1"
  "part_data src_three_parts 0 = replicate (2 ^ 26) (CHR ''a'')"
  "part_data src_three_parts 1 = replicate (2 ^ 26) (CHR ''b'')"
  "part_data src_three_parts 2 = ''c''"
proof -
  have gs: "get_size src_three_parts = 2 ^ 27 + 1"
    by (simp add: src_three_parts_def get_size_def)
  show "size_src src_three_parts = length (content src_three_parts)"
    by (simp add: src_three_parts_def)
  show "num_parts (get_size src_three_parts) = Inr 3"
    by (simp add: gs num_parts_def chunk_size_def default_chunk_def truediv_def Let_def
        round_half_even_def bit_length.simps)
  show o: "part_offset (get_size src_three_parts) 0 = 0"
    "bytes_to_read (get_size src_three_parts) 0 = 2 ^ 26"
    "part_offset (get_size src_three_parts) 1 = 2 ^ 26"
    "bytes_to_read (get_size src_three_parts) 1 = 2 ^ 26"
    "part_offset (get_size src_three_parts) 2 = 2 ^ 27"
    "bytes_to_read (get_size src_three_parts) 2 = 1"
    by (simp_all add: gs part_offset_def bytes_to_read_def chunk_size_def default_chunk_def)
  show "part_data src_three_parts 0 = replicate (2 ^ 26) (CHR ''a'')"
    "part_data src_three_parts 1 = replicate (2 ^ 26) (CHR ''b'')"
    "part_data src_three_parts 2 = ''c''"
    unfolding part_data_def o by (simp_all add: read_range_def src_three_parts_def)
qed

lemma transfer_part_second_attempt:
  assumes r0: "read_exn env i 0 = Some e0" and r1: "read_exn env i 1 = None"
    and up: "upload_part env 1 (i + 1) (part_data src i) d = (None, d')"
  shows "transfer_part env src i d =
           (None,
            [(ReadRange (part_offset (get_size src) i) (bytes_to_read (get_size src) i), Some e0),
             (Sleep 1, None),
             (ReadRange (part_offset (get_size src) i) (bytes_to_read (get_size src) i), None),
             (UploadPart (i + 1) (part_data src i), None)],
            d')"
proof -
  let ?rd = "ReadRange (part_offset (get_size src) i) (bytes_to_read (get_size src) i)"
  have t0: "try_part env src i 0 d = (Some e0, [(?rd, Some e0)], d)"
    using r0 by (simp add: try_part_def Let_def)
  have t1: "try_part env src i (0 + 1) d =
              (None, [(?rd, None), (UploadPart (i + 1) (part_data src i), None)], d')"
    using up r1 by (simp add: try_part_def Let_def part_data_def)
  have l1: "transfer_part_loop env src i (0 + 1) d =
              (None, [(?rd, None), (UploadPart (i + 1) (part_data src i), None)], d')"
    by (rule transfer_part_loop_unfold(1) [OF t1 refl])
  have l0: "transfer_part_loop env src i 0 d =
              (None, [(?rd, Some e0)] @ (Sleep (0 + 1), None)
                 # [(?rd, None), (UploadPart (i + 1) (part_data src i), None)], d')"
    by (rule transfer_part_loop_unfold(3) [OF t0 refl _ l1]) simp
  show ?thesis unfolding transfer_part_def l0 by simp
qed

lemma three_parts_run:
  "move_file env_timeout_once rev 2 src_three_parts (Dummy dummy_fresh)
       = (Inr True,
          [(ReadRange (2 ^ 27) 1, None), (UploadPart 3 ''c'', None),
           (ReadRange (2 ^ 26) (2 ^ 26), Some (SdkError ''timeout'')), (Sleep 1, None),
           (ReadRange (2 ^ 26) (2 ^ 26), None),
           (UploadPart 2 (replicate (2 ^ 26) (CHR ''b'')), None),
           (ReadRange 0 (2 ^ 26), None),
           (UploadPart 1 (replicate (2 ^ 26) (CHR ''a'')), None),
           (Complete, None), (Delete, None)],
          src_three_parts\<lparr>deleted := True\<rparr>,
          Dummy \<lparr>dummy_parts = [(1, replicate (2 ^ 26) (CHR ''a'')),
                                (2, replicate (2 ^ 26) (CHR ''b'')), (3, ''c'')],
                 completed = True,
                 combined_data = Some (content src_three_parts)\<rparr>)"
proof -
  note plan = src_three_parts_plan
  have rd: "read_exn env_timeout_once 2 0 = None"
    "read_exn env_timeout_once 1 0 = Some (SdkError ''timeout'')"
    "read_exn env_timeout_once 1 1 = None" "read_exn env_timeout_once 0 0 = None"
    by (simp_all add: env_timeout_once_def env_ok_def)
  have p2: "transfer_part env_timeout_once src_three_parts 2 (Dummy dm)
      = (None, [(ReadRange (2 ^ 27) 1, None), (UploadPart 3 ''c'', None)],
         Dummy (dm\<lparr>dummy_parts := dummy_parts dm @ [(3, ''c'')]\<rparr>))" for dm
    using transfer_part_first_attempt [OF rd(1) upload_part_dummy, of src_three_parts dm]
    by (simp add: plan)
  have p1: "transfer_part env_timeout_once src_three_parts 1 (Dummy dm)
      = (None, [(ReadRange (2 ^ 26) (2 ^ 26), Some (SdkError ''timeout'')), (Sleep 1, None),
                (ReadRange (2 ^ 26) (2 ^ 26), None),
                (UploadPart 2 (replicate (2 ^ 26) (CHR ''b'')), None)],
         Dummy (dm\<lparr>dummy_parts := dummy_parts dm @ [(2, replicate (2 ^ 26) (CHR ''b''))]\<rparr>))"
    for dm
    using transfer_part_second_attempt [OF rd(2) rd(3) upload_part_dummy, of src_three_parts dm,
        unfolded plan]
    by simp
  have p0: "transfer_part env_timeout_once src_three_parts 0 (Dummy dm)
      = (None, [(ReadRange 0 (2 ^ 26), None),
                (UploadPart 1 (replicate (2 ^ 26) (CHR ''a'')), None)],
         Dummy (dm\<lparr>dummy_parts := dummy_parts dm @ [(1, replicate (2 ^ 26) (CHR ''a''))]\<rparr>))"
    for dm
    using transfer_part_first_attempt [OF rd(4) upload_part_dummy, of src_three_parts dm]
    by (simp add: plan)
  have order: "rev [0 ..< 3] = [2, 1, 0]" by (simp add: upt_rec)
  have ta: "transfer_all env_timeout_once src_three_parts (rev [0 ..< 3]) (Dummy dummy_fresh)
      = (None,
         [(ReadRange (2 ^ 27) 1, None), (UploadPart 3 ''c'', None),
          (ReadRange (2 ^ 26) (2 ^ 26), Some (SdkError ''timeout'')), (Sleep 1, None),
          (ReadRange (2 ^ 26) (2 ^ 26), None),
          (UploadPart 2 (replicate (2 ^ 26) (CHR ''b'')), None),
          (ReadRange 0 (2 ^ 26), None),
          (UploadPart 1 (replicate (2 ^ 26) (CHR ''a'')), None)],
         Dummy \<lparr>dummy_parts = [(3, ''c''), (2, replicate (2 ^ 26) (CHR ''b'')),
                               (1, replicate (2 ^ 26) (CHR ''a''))],
                completed = False, combined_data = None\<rparr>)"
    unfolding order by (simp add: p2 p1 [unfolded One_nat_def] p0 dummy_fresh_def)
  have fin: "complete env_timeout_once (Dummy \<lparr>dummy_parts = [(3, ''c''), (2, replicate (2 ^ 26) (CHR ''b'')),
                               (1, replicate (2 ^ 26) (CHR ''a''))],
                completed = False, combined_data = None\<rparr>)
      = (None, Dummy \<lparr>dummy_parts = [(1, replicate (2 ^ 26) (CHR ''a'')),
                                (2, replicate (2 ^ 26) (CHR ''b'')), (3, ''c'')],
                 completed = True,
                 combined_data = Some (content src_three_parts)\<rparr>)"
    by (simp add: DummyDest_complete_def src_three_parts_def)
  have del: "delete_exn env_timeout_once = None" by (simp add: env_timeout_once_def env_ok_def)
  have pool: "\<not> pool_size 2 3 \<le> 0" by (simp add: pool_size_def)
  have "move_file_body env_timeout_once rev 2 src_three_parts (Dummy dummy_fresh)
       = (Inr True,
          [(ReadRange (2 ^ 27) 1, None), (UploadPart 3 ''c'', None),
           (ReadRange (2 ^ 26) (2 ^ 26), Some (SdkError ''timeout'')), (Sleep 1, None),
           (ReadRange (2 ^ 26) (2 ^ 26), None),
           (UploadPart 2 (replicate (2 ^ 26) (CHR ''b'')), None),
           (ReadRange 0 (2 ^ 26), None),
           (UploadPart 1 (replicate (2 ^ 26) (CHR ''a'')), None)]
          @ [(Complete, None), (Delete, None)],
          src_three_parts\<lparr>deleted := True\<rparr>,
          Dummy \<lparr>dummy_parts = [(1, replicate (2 ^ 26) (CHR ''a'')),
                                (2, replicate (2 ^ 26) (CHR ''b'')), (3, ''c'')],
                 completed = True,
                 combined_data = Some (content src_three_parts)\<rparr>)"
    unfolding move_file_body_def Let_def plan(2)
    by (simp only: sum.case pool if_False ta fin prod.case option.case delete_def del)
  from move_file_unfold(1) [OF this] show ?thesis by simp
qed

theorem delivered_parts_reproduce_source_witness:
  "size_src src_three_parts = length (content src_three_parts)
   \<and> length (content src_three_parts) \<le> 2 ^ 53
   \<and> (\<forall>xs :: nat list. mset (rev xs) = mset xs)
   \<and> move_file env_timeout_once rev 2 src_three_parts (Dummy dummy_fresh)
       = (Inr True,
          [(ReadRange (2 ^ 27) 1, None), (UploadPart 3 ''c'', None),
           (ReadRange (2 ^ 26) (2 ^ 26), Some (SdkError ''timeout'')), (Sleep 1, None),
           (ReadRange (2 ^ 26) (2 ^ 26), None),
           (UploadPart 2 (replicate (2 ^ 26) (CHR ''b'')), None),
           (ReadRange 0 (2 ^ 26), None),
           (UploadPart 1 (replicate (2 ^ 26) (CHR ''a'')), None),
           (Complete, None), (Delete, None)],
          src_three_parts\<lparr>deleted := True\<rparr>,
          Dummy \<lparr>dummy_parts = [(1, replicate (2 ^ 26) (CHR ''a'')),
                                (2, replicate (2 ^ 26) (CHR ''b'')), (3, ''c'')],
                 completed = True,
                 combined_data = Some (content src_three_parts)\<rparr>)
   \<and> concat (map snd (sort_key fst (delivered
          [(ReadRange (2 ^ 27) 1, None), (UploadPart 3 ''c'', None),
           (ReadRange (2 ^ 26) (2 ^ 26), Some (SdkError ''timeout'')), (Sleep 1, None),
           (ReadRange (2 ^ 26) (2 ^ 26), None),
           (UploadPart 2 (replicate (2 ^ 26) (CHR ''b'')), None),
           (ReadRange 0 (2 ^ 26), None),
           (UploadPart 1 (replicate (2 ^ 26) (CHR ''a'')), None),
           (Complete, None), (Delete, None)])))
       = content src_three_parts"
proof -
  have sz: "size_src src_three_parts = length (content src_three_parts)"
    by (rule src_three_parts_plan(1))
  have bound: "length (content src_three_parts) \<le> 2 ^ 53"
    by (simp add: src_three_parts_def)
  note run = three_parts_run
  have perm: "mset (rev xs) = mset xs" for xs :: "nat list" by simp
  note round_trip = delivered_parts_reproduce_source [OF sz bound perm run]
  show ?thesis by (intro conjI allI sz bound perm run round_trip)
qed

end
